theory Spec2Isabelle
  imports Main "HOL-Library.AList" "HOL-Library.Sublist" "HOL-Library.Char_ord"
    "HOL-Library.List_Lexorder"
begin

section \<open>debtoapg: the conversion pipeline of src/main.py\<close>

text \<open>
  The program works on the file system and calls an external tool (dpkg-deb). The
  model makes both explicit:
  \<^item> a directory tree is a \<open>node\<close>: a regular file with its bytes, or a directory with
    its entries in listing order (symbolic links, devices and permissions are not
    modelled);
  \<^item> the file system is a map from the path strings the program is given or obtains
    (the input file, the output file, the directory made by \<open>tempfile.mkdtemp\<close>) to
    the node found there; a path below such a root is the root with a list of
    components;
  \<^item> the answers of the outside world (the exit status and stderr of each dpkg-deb
    call, the tree it unpacks, the names mkdtemp tries, the clock, SHA-256, the JSON
    and tar.xz encoders, the formatting of a float) are the fields of an \<open>env\<close>;
  \<^item> every method of \<open>DebToApgConverter\<close> takes the state and returns its result,
    an \<open>error\<close> for a raised exception, together with the new state.
\<close>

subsection \<open>Directory trees\<close>

type_synonym path = "string list"

datatype node = File string | Dir "(string \<times> node) list"

text \<open>The node a component path leads to, from a given node; \<open>None\<close> when there is none.\<close>

fun node_at :: "node \<Rightarrow> path \<Rightarrow> node option" where
  "node_at n [] = Some n"
| "node_at (File b) (x # p) = None"
| "node_at (Dir es) (x # p) = (case map_of es x of None \<Rightarrow> None | Some c \<Rightarrow> node_at c p)"

text \<open>
  Binding a node at a path: the last component is created or replaced, every
  directory before it must exist.
\<close>

fun put :: "node \<Rightarrow> path \<Rightarrow> node \<Rightarrow> node option" where
  "put t [] n = Some n"
| "put (File b) (x # p) n = None"
| "put (Dir es) (x # p) n =
     (if p = [] then Some (Dir (AList.update x n es))
      else (case map_of es x of
              None \<Rightarrow> None
            | Some c \<Rightarrow> (case put c p n of
                          None \<Rightarrow> None
                        | Some c' \<Rightarrow> Some (Dir (AList.update x c' es)))))"

text \<open>Unlinking the entry at a path.\<close>

fun remove :: "node \<Rightarrow> path \<Rightarrow> node option" where
  "remove t [] = None"
| "remove (File b) (x # p) = None"
| "remove (Dir es) (x # p) =
     (case map_of es x of
        None \<Rightarrow> None
      | Some c \<Rightarrow>
          (if p = [] then Some (Dir (AList.delete x es))
           else (case remove c p of
                   None \<Rightarrow> None
                 | Some c' \<Rightarrow> Some (Dir (AList.update x c' es)))))"

text \<open>
  What a file system guarantees of a tree: the names of a directory are distinct, and
  a name is not empty and has no slash.
\<close>

definition valid_name :: "string \<Rightarrow> bool" where
  "valid_name n \<longleftrightarrow> n \<noteq> [] \<and> CHR ''/'' \<notin> set n"

fun wf_node :: "node \<Rightarrow> bool" where
  "wf_node (File b) = True"
| "wf_node (Dir es) =
     (distinct (map fst es) \<and> (\<forall>e \<in> set es. valid_name (fst e) \<and> wf_node (snd e)))"

subsection \<open>Path strings\<close>

text \<open>\<open>os.path.join\<close> of two strings (POSIX).\<close>

definition path_join :: "string \<Rightarrow> string \<Rightarrow> string" where
  "path_join a b =
     (if b \<noteq> [] \<and> hd b = CHR ''/'' then b
      else if a = [] \<or> last a = CHR ''/'' then a @ b
      else a @ ''/'' @ b)"

text \<open>
  \<open>os.path.relpath(os.path.join(directory, c1, ..., cn), directory)\<close> for names
  \<open>c1 ... cn\<close>: the names joined by slashes, and \<open>.\<close> for no name at all.
\<close>

fun rel_path :: "path \<Rightarrow> string" where
  "rel_path [] = ''.''"
| "rel_path [x] = x"
| "rel_path (x # y # p) = x @ ''/'' @ rel_path (y # p)"

text \<open>\<open>s.endswith(suffix)\<close>.\<close>

definition endswith :: "string \<Rightarrow> string \<Rightarrow> bool" where
  "endswith s sfx \<longleftrightarrow> length sfx \<le> length s \<and> drop (length s - length sfx) s = sfx"

subsection \<open>os.walk\<close>

text \<open>
  \<open>os.walk(top)\<close>, top-down: for each directory the triple of its path (here the
  components below \<open>top\<close>), the names of its subdirectories and the names of its other
  entries, then the walks of its subdirectories. A \<open>top\<close> that is not a directory gives
  nothing.
\<close>

fun is_dir :: "node \<Rightarrow> bool" where
  "is_dir (Dir es) = True"
| "is_dir (File b) = False"

fun os_walk :: "path \<Rightarrow> node \<Rightarrow> (path \<times> string list \<times> string list) list" where
  "os_walk root (File b) = []"
| "os_walk root (Dir es) =
     (root, map fst (filter (\<lambda>e. is_dir (snd e)) es), map fst (filter (\<lambda>e. \<not> is_dir (snd e)) es))
     # concat (map (\<lambda>e. os_walk (root @ [fst e]) (snd e)) es)"

subsection \<open>Exceptions, values and the outside world\<close>

datatype errno = EEXIST | ENOENT | EISDIR | ENOTDIR

text \<open>
  The exceptions the modelled code can raise. \<open>OSError\<close> stands for its subclasses
  (FileExistsError, FileNotFoundError, IsADirectoryError, NotADirectoryError), told
  apart by the errno; its string is the message after the errno. \<open>ShutilError\<close> is
  \<open>shutil.Error\<close>. \<open>KeyboardInterrupt\<close> is the only one that is not an \<open>Exception\<close>.
\<close>

datatype error =
    ValueError string
  | RuntimeError string
  | TypeError string
  | OSError errno string
  | ShutilError string
  | KeyboardInterrupt

fun is_exception :: "error \<Rightarrow> bool" where
  "is_exception KeyboardInterrupt = False"
| "is_exception e = True"

fun errno_number :: "errno \<Rightarrow> string" where
  "errno_number EEXIST = ''17''"
| "errno_number ENOENT = ''2''"
| "errno_number EISDIR = ''21''"
| "errno_number ENOTDIR = ''20''"

fun strerror :: "errno \<Rightarrow> string" where
  "strerror EEXIST = ''File exists''"
| "strerror ENOENT = ''No such file or directory''"
| "strerror EISDIR = ''Is a directory''"
| "strerror ENOTDIR = ''Not a directory''"

text \<open>The OSError a failed system call on a path raises: its message names the path in quotes.\<close>

definition os_error :: "errno \<Rightarrow> string \<Rightarrow> error" where
  "os_error e filename = OSError e (strerror e @ '': '' @ [CHR 0x27] @ filename @ [CHR 0x27])"

text \<open>\<open>str(e)\<close>.\<close>

fun error_str :: "error \<Rightarrow> string" where
  "error_str (ValueError m) = m"
| "error_str (RuntimeError m) = m"
| "error_str (TypeError m) = m"
| "error_str (OSError e m) = ''[Errno '' @ errno_number e @ ''] '' @ m"
| "error_str (ShutilError m) = m"
| "error_str KeyboardInterrupt = []"

text \<open>What a method can return: \<open>None\<close>, a boolean or an integer.\<close>

datatype pyval = PyNone | PyBool bool | PyInt int

text \<open>
  A call of \<open>subprocess.run(..., check=True, capture_output=True)\<close> ends with an exit
  status and the captured stderr (decoded), or is interrupted by the user, which
  raises KeyboardInterrupt in the caller.
\<close>

datatype run_result = Exited int string | Interrupted

text \<open>A member of a tar archive: its kind, and the bytes of a file.\<close>

datatype member = MemberDir | MemberFile string

record env =
  dpkg_info :: "string \<Rightarrow> run_result"
  dpkg_contents :: "string \<Rightarrow> run_result"
  dpkg_extract :: "string \<Rightarrow> (string \<times> node) list \<times> run_result"
  gettempdir :: string
  tmp_names :: "string list"
  utcnow_isoformat :: string
  sha256_hexdigest :: "string \<Rightarrow> string"
  json_dump :: "(string \<times> string) list \<Rightarrow> string"
  tar_xz :: "(string \<times> member) list \<Rightarrow> string"
  format_mb :: "nat \<Rightarrow> string"
  dir_st_size :: nat

text \<open>
  \<open>dpkg_extract env f\<close> is what \<open>dpkg-deb -R f dir\<close> leaves in the fresh directory
  \<open>dir\<close> and how it ends; \<open>tmp_names\<close> are the random names mkdtemp tries, in order;
  \<open>format_mb n\<close> is \<open>n / (1024 * 1024)\<close> formatted with \<open>:.1f\<close>; \<open>dir_st_size\<close> is
  the size \<open>os.path.getsize\<close> reports for a directory.
\<close>

text \<open>What is printed on the terminal, one event for each print.\<close>

datatype event =
    Banner
  | VersionInfo
  | Usage
  | Progress nat string
  | Newline
  | LogLine string string
  | Print string
  | ErrorLine string
  | Cancelled

text \<open>
  The converter object (\<open>verbose\<close>, \<open>temp_dir\<close>, \<open>current_step\<close>) with the file system
  it acts on and the terminal it prints to.
\<close>

record state =
  verbose :: bool
  temp_dir :: "string option"
  current_step :: nat
  disk :: "string \<rightharpoonup> node"
  tty :: "event list"

definition version :: string where
  "version = ''1.0.0''"

definition total_steps :: nat where
  "total_steps = 4"

subsection \<open>The file system\<close>

text \<open>A location: a root of the \<open>disk\<close> map and the components below it.\<close>

type_synonym loc = "string \<times> path"

definition loc_join :: "loc \<Rightarrow> string \<Rightarrow> loc" where
  "loc_join l name = (fst l, snd l @ [name])"

definition loc_str :: "loc \<Rightarrow> string" where
  "loc_str l = foldl path_join (fst l) (snd l)"

definition stat :: "(string \<rightharpoonup> node) \<Rightarrow> loc \<Rightarrow> node option" where
  "stat d l = (case d (fst l) of None \<Rightarrow> None | Some t \<Rightarrow> node_at t (snd l))"

definition bind_node :: "(string \<rightharpoonup> node) \<Rightarrow> loc \<Rightarrow> node \<Rightarrow> (string \<rightharpoonup> node) option" where
  "bind_node d l n =
     (if snd l = [] then Some (d(fst l \<mapsto> n))
      else (case d (fst l) of
              None \<Rightarrow> None
            | Some t \<Rightarrow> (case put t (snd l) n of None \<Rightarrow> None | Some t' \<Rightarrow> Some (d(fst l \<mapsto> t')))))"

definition unlink :: "(string \<rightharpoonup> node) \<Rightarrow> loc \<Rightarrow> (string \<rightharpoonup> node) option" where
  "unlink d l =
     (case d (fst l) of
        None \<Rightarrow> None
      | Some t \<Rightarrow>
          (if snd l = [] then Some (d(fst l := None))
           else (case remove t (snd l) of None \<Rightarrow> None | Some t' \<Rightarrow> Some (d(fst l \<mapsto> t')))))"

text \<open>
  \<open>os.makedirs(name)\<close> with \<open>exist_ok\<close> left False: FileExistsError when the name
  exists; otherwise the missing directories on the way are made, which fails when a
  regular file is on the way.
\<close>

fun makedirs_at :: "node \<Rightarrow> path \<Rightarrow> node option" where
  "makedirs_at n [] = Some n"
| "makedirs_at (File b) (x # p) = None"
| "makedirs_at (Dir es) (x # p) =
     (case makedirs_at (case map_of es x of None \<Rightarrow> Dir [] | Some c \<Rightarrow> c) p of
        None \<Rightarrow> None
      | Some c' \<Rightarrow> Some (Dir (AList.update x c' es)))"

definition os_makedirs :: "(string \<rightharpoonup> node) \<Rightarrow> loc \<Rightarrow> error + (string \<rightharpoonup> node)" where
  "os_makedirs d l =
     (if stat d l \<noteq> None then Inl (os_error EEXIST (loc_str l))
      else (case makedirs_at (case d (fst l) of None \<Rightarrow> Dir [] | Some t \<Rightarrow> t) (snd l) of
              None \<Rightarrow> Inl (os_error ENOTDIR (loc_str l))
            | Some t' \<Rightarrow> Inr (d(fst l \<mapsto> t'))))"

definition os_listdir :: "(string \<rightharpoonup> node) \<Rightarrow> loc \<Rightarrow> error + string list" where
  "os_listdir d l =
     (case stat d l of
        None \<Rightarrow> Inl (os_error ENOENT (loc_str l))
      | Some (File b) \<Rightarrow> Inl (os_error ENOTDIR (loc_str l))
      | Some (Dir es) \<Rightarrow> Inr (map fst es))"

text \<open>
  \<open>os.rename(src, dst)\<close>, for the destinations \<open>shutil.move\<close> passes: a path that is
  free, a regular file (replaced by a regular file, refused for a directory), or the
  source itself.
\<close>

definition os_rename :: "(string \<rightharpoonup> node) \<Rightarrow> loc \<Rightarrow> loc \<Rightarrow> error + (string \<rightharpoonup> node)" where
  "os_rename d src dst =
     (case stat d src of
        None \<Rightarrow> Inl (os_error ENOENT (loc_str src))
      | Some n \<Rightarrow>
          (if is_dir n \<and> (case stat d dst of None \<Rightarrow> False | Some c \<Rightarrow> \<not> is_dir c)
           then Inl (os_error ENOTDIR (loc_str dst))
           else (case unlink d src of
                   None \<Rightarrow> Inl (os_error ENOENT (loc_str src))
                 | Some d' \<Rightarrow>
                     (case bind_node d' dst n of
                        None \<Rightarrow> Inl (os_error ENOENT (loc_str dst))
                      | Some d'' \<Rightarrow> Inr d''))))"

text \<open>The last component of a path, trailing slashes dropped (\<open>shutil._basename\<close>).\<close>

definition os_path_basename :: "string \<Rightarrow> string" where
  "os_path_basename s =
     rev (takeWhile (\<lambda>c. c \<noteq> CHR ''/'') (dropWhile (\<lambda>c. c = CHR ''/'') (rev s)))"

definition loc_basename :: "loc \<Rightarrow> string" where
  "loc_basename l = (if snd l = [] then os_path_basename (fst l) else last (snd l))"

text \<open>
  \<open>shutil.move(src, dst)\<close>. When \<open>dst\<close> is a directory other than \<open>src\<close>, the real
  destination is the source's name inside it, and \<open>shutil.Error\<close> is raised when that
  is taken. Then \<open>os.rename\<close>; where it fails, a directory asked to move into itself gives
  \<open>shutil.Error\<close>, and otherwise the copy shutil falls back on fails for the same
  reason, so the error is the result.
\<close>

definition shutil_move :: "(string \<rightharpoonup> node) \<Rightarrow> loc \<Rightarrow> loc \<Rightarrow> error + (string \<rightharpoonup> node)" where
  "shutil_move d src dst =
     (case (case stat d dst of
              Some (Dir es) \<Rightarrow>
                (if src = dst then Inr dst
                 else (let real_dst = loc_join dst (loc_basename src)
                       in if stat d real_dst \<noteq> None
                          then Inl (ShutilError (''Destination path '' @ [CHR 0x27] @
                                      loc_str real_dst @ [CHR 0x27] @ '' already exists''))
                          else Inr real_dst))
            | _ \<Rightarrow> Inr dst) of
        Inl e \<Rightarrow> Inl e
      | Inr real_dst \<Rightarrow>
          (case os_rename d src real_dst of
             Inr d' \<Rightarrow> Inr d'
           | Inl e \<Rightarrow>
               (if (case stat d src of None \<Rightarrow> False | Some n \<Rightarrow> is_dir n) \<and>
                   fst src = fst dst \<and> prefix (snd src) (snd dst)
                then Inl (ShutilError (''Cannot move a directory '' @ [CHR 0x27] @ loc_str src @
                            [CHR 0x27] @ '' into itself '' @ [CHR 0x27] @ loc_str dst @
                            [CHR 0x27] @ ''.''))
                else Inl e)))"

text \<open>\<open>open(name, 'w')\<close> followed by writing a string and closing.\<close>

definition write_file :: "(string \<rightharpoonup> node) \<Rightarrow> loc \<Rightarrow> string \<Rightarrow> error + (string \<rightharpoonup> node)" where
  "write_file d l content =
     (case stat d l of
        Some (Dir es) \<Rightarrow> Inl (os_error EISDIR (loc_str l))
      | _ \<Rightarrow> (case bind_node d l (File content) of
                None \<Rightarrow> Inl (os_error ENOENT (loc_str l))
              | Some d' \<Rightarrow> Inr d'))"

text \<open>\<open>open(name).read()\<close>, in text or in binary mode: the content of a regular file.\<close>

definition read_file :: "(string \<rightharpoonup> node) \<Rightarrow> loc \<Rightarrow> error + string" where
  "read_file d l =
     (case stat d l of
        None \<Rightarrow> Inl (os_error ENOENT (loc_str l))
      | Some (Dir es) \<Rightarrow> Inl (os_error EISDIR (loc_str l))
      | Some (File b) \<Rightarrow> Inr b)"

definition os_path_getsize :: "env \<Rightarrow> (string \<rightharpoonup> node) \<Rightarrow> loc \<Rightarrow> error + nat" where
  "os_path_getsize env d l =
     (case stat d l of
        None \<Rightarrow> Inl (os_error ENOENT (loc_str l))
      | Some (Dir es) \<Rightarrow> Inr (dir_st_size env)
      | Some (File b) \<Rightarrow> Inr (length b))"

text \<open>\<open>shutil.rmtree(name)\<close>: removes a directory with all below it, refuses a regular file.\<close>

definition shutil_rmtree :: "(string \<rightharpoonup> node) \<Rightarrow> loc \<Rightarrow> error + (string \<rightharpoonup> node)" where
  "shutil_rmtree d l =
     (case stat d l of
        None \<Rightarrow> Inl (os_error ENOENT (loc_str l))
      | Some (File b) \<Rightarrow> Inl (os_error ENOTDIR (loc_str l))
      | Some (Dir es) \<Rightarrow>
          (case unlink d l of None \<Rightarrow> Inl (os_error ENOENT (loc_str l)) | Some d' \<Rightarrow> Inr d'))"

text \<open>
  \<open>tempfile.mkdtemp()\<close>: the first of the candidate names that is free in the
  temporary directory is made an empty directory there and its path returned;
  FileExistsError when all are taken.
\<close>

definition tmp_path :: "env \<Rightarrow> string \<Rightarrow> string" where
  "tmp_path env name = path_join (gettempdir env) (''tmp'' @ name)"

definition mkdtemp :: "env \<Rightarrow> (string \<rightharpoonup> node) \<Rightarrow> error + string \<times> (string \<rightharpoonup> node)" where
  "mkdtemp env d =
     (case find (\<lambda>p. d p = None) (map (tmp_path env) (tmp_names env)) of
        None \<Rightarrow> Inl (OSError EEXIST ''No usable temporary directory name found'')
      | Some p \<Rightarrow> Inr (p, d(p \<mapsto> Dir [])))"

subsection \<open>Printing\<close>

definition print_version :: "state \<Rightarrow> state" where
  "print_version st = st\<lparr>tty := tty st @ [VersionInfo]\<rparr>"

definition print_banner :: "state \<Rightarrow> state" where
  "print_banner st = st\<lparr>tty := tty st @ [Banner]\<rparr>"

text \<open>
  \<open>update_progress\<close>: the percentage \<open>(current_step / total_steps) * 100\<close> is 100
  exactly when the step counter has reached \<open>total_steps\<close>.
\<close>

definition update_progress :: "string \<Rightarrow> state \<Rightarrow> state" where
  "update_progress message st =
     (let step = current_step st + 1;
          st' = st\<lparr>current_step := step, tty := tty st @ [Progress step message]\<rparr>
      in if step = total_steps then st'\<lparr>tty := tty st' @ [Newline]\<rparr> else st')"

definition log :: "string \<Rightarrow> string \<Rightarrow> state \<Rightarrow> state" where
  "log message level st =
     (if verbose st \<or> level \<in> set [''error'', ''success'', ''warning'']
      then st\<lparr>tty := tty st @ [LogLine level message]\<rparr>
      else st)"

subsection \<open>validate_deb, extract_deb, cleanup\<close>

definition validate_deb :: "env \<Rightarrow> string \<Rightarrow> state \<Rightarrow> (error + pyval) \<times> state" where
  "validate_deb env input_file st =
     (if stat (disk st) (input_file, []) = None
      then (Inl (ValueError ''Input file does not exist''), st)
      else if \<not> endswith input_file ''.deb''
      then (Inl (ValueError ''Input file must be a .deb package''), st)
      else (case dpkg_info env input_file of
              Interrupted \<Rightarrow> (Inl KeyboardInterrupt, st)
            | Exited rc err \<Rightarrow>
                (if rc \<noteq> 0
                 then (Inl (ValueError (''Invalid or corrupted .deb package: '' @ err)), st)
                 else (case dpkg_contents env input_file of
                         Interrupted \<Rightarrow> (Inl KeyboardInterrupt, st)
                       | Exited rc' err' \<Rightarrow>
                           (if rc' \<noteq> 0
                            then (Inl (ValueError (''Invalid or corrupted .deb package: '' @ err')), st)
                            else (Inr (PyBool True),
                                  log ''Package validation successful'' ''success'' st))))))"

definition cleanup :: "state \<Rightarrow> (error + pyval) \<times> state" where
  "cleanup st =
     (case temp_dir st of
        None \<Rightarrow> (Inr PyNone, st)
      | Some tmp \<Rightarrow>
          (if tmp \<noteq> [] \<and> stat (disk st) (tmp, []) \<noteq> None
           then (case shutil_rmtree (disk st) (tmp, []) of
                   Inl e \<Rightarrow> (Inl e, st)
                 | Inr d \<Rightarrow> (Inr PyNone, st\<lparr>disk := d\<rparr>))
           else (Inr PyNone, st)))"

text \<open>
  \<open>extract_deb\<close>: what dpkg-deb has unpacked is in the directory also when it fails
  or is interrupted.
\<close>

definition extract_deb :: "env \<Rightarrow> string \<Rightarrow> state \<Rightarrow> (error + pyval) \<times> state" where
  "extract_deb env input_file st =
     (let st1 = log (''Extracting '' @ input_file @ ''...'') ''process'' st;
          st2 = update_progress ''Extracting DEB package'' st1
      in case mkdtemp env (disk st2) of
           Inl e \<Rightarrow> (Inl e, st2)
         | Inr (tmp, d) \<Rightarrow>
             (let st3 = st2\<lparr>temp_dir := Some tmp, disk := d\<rparr>
              in case dpkg_extract env input_file of
                   (es, Interrupted) \<Rightarrow> (Inl KeyboardInterrupt, st3\<lparr>disk := d(tmp \<mapsto> Dir es)\<rparr>)
                 | (es, Exited rc err) \<Rightarrow>
                     (let st4 = st3\<lparr>disk := d(tmp \<mapsto> Dir es)\<rparr>
                      in if rc \<noteq> 0
                         then (case cleanup st4 of
                                 (Inl e, st5) \<Rightarrow> (Inl e, st5)
                               | (Inr v, st5) \<Rightarrow>
                                   (Inl (RuntimeError (''Failed to extract .deb: '' @ err)), st5))
                         else (Inr PyNone, st4))))"

subsection \<open>generate_metadata and calculate_checksums\<close>

text \<open>A Python dict: keys in insertion order, an assignment to a present key replaces its value.\<close>

type_synonym dict = "(string \<times> string) list"

definition none_path_error :: error where
  "none_path_error = TypeError ''expected str, bytes or os.PathLike object, not NoneType''"

definition control_files :: "string list" where
  "control_files =
     [''control'', ''preinst'', ''postinst'', ''prerm'', ''postrm'', ''triggers'', ''conffiles'']"

text \<open>The loop of \<open>generate_metadata\<close> over \<open>control_files\<close>.\<close>

fun read_control_files :: "(string \<rightharpoonup> node) \<Rightarrow> loc \<Rightarrow> string list \<Rightarrow> dict \<Rightarrow> error + dict" where
  "read_control_files d debian_dir [] metadata = Inr metadata"
| "read_control_files d debian_dir (file # files) metadata =
     (let file_path = loc_join debian_dir file
      in if stat d file_path \<noteq> None
         then (case read_file d file_path of
                 Inl e \<Rightarrow> Inl e
               | Inr content \<Rightarrow>
                   read_control_files d debian_dir files (AList.update file content metadata))
         else read_control_files d debian_dir files metadata)"

definition generate_metadata :: "env \<Rightarrow> state \<Rightarrow> (error + dict) \<times> state" where
  "generate_metadata env st =
     (let st1 = update_progress ''Generating metadata'' st
      in case temp_dir st1 of
           None \<Rightarrow> (Inl none_path_error, st1)
         | Some tmp \<Rightarrow>
             (let debian_dir = loc_join (tmp, []) ''DEBIAN'';
                  metadata = [(''created'', utcnow_isoformat env),
                              (''converter_version'', version),
                              (''converter'', ''debtoapg''),
                              (''author'', ''AnmiTaliDev'')]
              in case read_control_files (disk st1) debian_dir control_files metadata of
                   Inl e \<Rightarrow> (Inl e, st1)
                 | Inr m \<Rightarrow> (Inr m, st1)))"

text \<open>
  The two loops of \<open>calculate_checksums\<close>: over the files of one triple of the walk,
  and over the triples. \<open>root\<close> holds the components below \<open>directory\<close>.
\<close>

fun hash_files :: "env \<Rightarrow> (string \<rightharpoonup> node) \<Rightarrow> loc \<Rightarrow> path \<Rightarrow> string list \<Rightarrow> dict \<Rightarrow> error + dict" where
  "hash_files env d directory root [] checksums = Inr checksums"
| "hash_files env d directory root (file # files) checksums =
     (let file_path = (fst directory, snd directory @ root @ [file]);
          rel = rel_path (root @ [file])
      in case read_file d file_path of
           Inl e \<Rightarrow> Inl e
         | Inr content \<Rightarrow>
             hash_files env d directory root files
               (AList.update rel (sha256_hexdigest env content) checksums))"

fun hash_walk :: "env \<Rightarrow> (string \<rightharpoonup> node) \<Rightarrow> loc \<Rightarrow> (path \<times> string list \<times> string list) list \<Rightarrow> dict \<Rightarrow> error + dict" where
  "hash_walk env d directory [] checksums = Inr checksums"
| "hash_walk env d directory ((root, dirs, files) # rest) checksums =
     (case hash_files env d directory root files checksums of
        Inl e \<Rightarrow> Inl e
      | Inr c \<Rightarrow> hash_walk env d directory rest c)"

definition calculate_checksums :: "env \<Rightarrow> loc \<Rightarrow> state \<Rightarrow> (error + dict) \<times> state" where
  "calculate_checksums env directory st =
     (let st1 = update_progress ''Calculating checksums'' st;
          walk = (case stat (disk st1) directory of None \<Rightarrow> [] | Some t \<Rightarrow> os_walk [] t)
      in case hash_walk env (disk st1) directory walk [] of
           Inl e \<Rightarrow> (Inl e, st1)
         | Inr c \<Rightarrow> (Inr c, st1))"

subsection \<open>create_apg\<close>

text \<open>The loop of \<open>create_apg\<close> over \<open>os.listdir(data_source)\<close>.\<close>

fun move_items :: "(string \<rightharpoonup> node) \<Rightarrow> loc \<Rightarrow> loc \<Rightarrow> string list \<Rightarrow> (error + pyval) \<times> (string \<rightharpoonup> node)" where
  "move_items d data_source data_dest [] = (Inr PyNone, d)"
| "move_items d data_source data_dest (item # items) =
     (if item \<noteq> ''DEBIAN'' \<and> item \<noteq> ''apg''
      then (case shutil_move d (loc_join data_source item) (loc_join data_dest item) of
              Inl e \<Rightarrow> (Inl e, d)
            | Inr d' \<Rightarrow> move_items d' data_source data_dest items)
      else move_items d data_source data_dest items)"

text \<open>
  The restructuring step, lines 128 to 138 of \<open>create_apg\<close>: the two \<open>os.makedirs\<close>
  and the loop of moves.
\<close>

definition restructure :: "state \<Rightarrow> (error + pyval) \<times> state" where
  "restructure st =
     (case temp_dir st of
        None \<Rightarrow> (Inl none_path_error, st)
      | Some tmp \<Rightarrow>
          (let apg_root = loc_join (tmp, []) ''apg''
           in case os_makedirs (disk st) apg_root of
                Inl e \<Rightarrow> (Inl e, st)
              | Inr d1 \<Rightarrow>
                  (case os_makedirs d1 (loc_join apg_root ''data'') of
                     Inl e \<Rightarrow> (Inl e, st\<lparr>disk := d1\<rparr>)
                   | Inr d2 \<Rightarrow>
                       (let data_source = (tmp, []);
                            data_dest = loc_join apg_root ''data''
                        in case os_listdir d2 data_source of
                             Inl e \<Rightarrow> (Inl e, st\<lparr>disk := d2\<rparr>)
                           | Inr items \<Rightarrow>
                               (case move_items d2 data_source data_dest items of
                                  (r, d3) \<Rightarrow> (r, st\<lparr>disk := d3\<rparr>))))))"

text \<open>
  \<open>tar.add(name, arcname)\<close>: the member itself, then for a directory the members of
  its entries in sorted order, each under \<open>os.path.join(arcname, entry)\<close>.
\<close>

fun tar_add :: "string \<Rightarrow> node \<Rightarrow> (string \<times> member) list" where
  "tar_add arcname (File b) = [(arcname, MemberFile b)]"
| "tar_add arcname (Dir es) =
     (arcname, MemberDir)
     # concat (map (\<lambda>e. tar_add (path_join arcname (fst e)) (snd e)) (sort_key fst es))"

text \<open>
  \<open>with open(name, 'w') as f: json.dump(produce(), f, indent=2)\<close>: the file is created
  empty, the value is computed, its encoding is written.
\<close>

definition dump_to :: "env \<Rightarrow> loc \<Rightarrow> (state \<Rightarrow> (error + dict) \<times> state) \<Rightarrow> state \<Rightarrow> (error + pyval) \<times> state" where
  "dump_to env name produce st =
     (case write_file (disk st) name [] of
        Inl e \<Rightarrow> (Inl e, st)
      | Inr d1 \<Rightarrow>
          (case produce (st\<lparr>disk := d1\<rparr>) of
             (Inl e, st1) \<Rightarrow> (Inl e, st1)
           | (Inr v, st1) \<Rightarrow>
               (case write_file (disk st1) name (json_dump env v) of
                  Inl e \<Rightarrow> (Inl e, st1)
                | Inr d2 \<Rightarrow> (Inr PyNone, st1\<lparr>disk := d2\<rparr>))))"

text \<open>
  \<open>with tarfile.open(output_file, 'w:xz') as tar: tar.add(apg_root, arcname='')\<close>: the
  output file is created empty, the tree is read, the archive is written.
\<close>

definition write_archive :: "env \<Rightarrow> string \<Rightarrow> loc \<Rightarrow> state \<Rightarrow> (error + pyval) \<times> state" where
  "write_archive env output_file apg_root st =
     (case write_file (disk st) (output_file, []) [] of
        Inl e \<Rightarrow> (Inl e, st)
      | Inr d1 \<Rightarrow>
          (case stat d1 apg_root of
             None \<Rightarrow> (Inl (os_error ENOENT (loc_str apg_root)), st\<lparr>disk := d1\<rparr>)
           | Some root \<Rightarrow>
               (case write_file d1 (output_file, []) (tar_xz env (tar_add [] root)) of
                  Inl e \<Rightarrow> (Inl e, st\<lparr>disk := d1\<rparr>)
                | Inr d2 \<Rightarrow> (Inr PyNone, st\<lparr>disk := d2\<rparr>))))"

definition create_apg :: "env \<Rightarrow> string \<Rightarrow> state \<Rightarrow> (error + pyval) \<times> state" where
  "create_apg env output_file st =
     (case restructure (log ''Creating APG structure...'' ''process'' st) of
        (Inl e, st1) \<Rightarrow> (Inl e, st1)
      | (Inr v, st1) \<Rightarrow>
          (case temp_dir st1 of
             None \<Rightarrow> (Inl none_path_error, st1)
           | Some tmp \<Rightarrow>
               (let apg_root = loc_join (tmp, []) ''apg'';
                    data_dest = loc_join apg_root ''data''
                in case dump_to env (loc_join apg_root ''metadata.json'') (generate_metadata env) st1 of
                     (Inl e, st2) \<Rightarrow> (Inl e, st2)
                   | (Inr v, st2) \<Rightarrow>
                       (case dump_to env (loc_join apg_root ''checksums.json'')
                               (calculate_checksums env data_dest) st2 of
                          (Inl e, st3) \<Rightarrow> (Inl e, st3)
                        | (Inr v, st3) \<Rightarrow>
                            write_archive env output_file apg_root
                              (update_progress ''Creating APG archive'' st3)))))"

subsection \<open>convert and main\<close>

text \<open>The body of the \<open>try\<close> of \<open>convert\<close>.\<close>

definition convert_try :: "env \<Rightarrow> string \<Rightarrow> string \<Rightarrow> state \<Rightarrow> (error + pyval) \<times> state" where
  "convert_try env input_file output_file st =
     (case validate_deb env input_file
             (st\<lparr>tty := tty st @ [Print (CHR 0x0A # ''Starting conversion process:'')]\<rparr>) of
        (Inl e, st1) \<Rightarrow> (Inl e, st1)
      | (Inr v, st1) \<Rightarrow>
          (case extract_deb env input_file st1 of
             (Inl e, st2) \<Rightarrow> (Inl e, st2)
           | (Inr v, st2) \<Rightarrow>
               (case create_apg env output_file st2 of
                  (Inl e, st3) \<Rightarrow> (Inl e, st3)
                | (Inr v, st3) \<Rightarrow>
                    (case os_path_getsize env (disk st3) (output_file, []) of
                       Inl e \<Rightarrow> (Inl e, st3)
                     | Inr size_bytes \<Rightarrow>
                         (Inr PyNone,
                          log (CHR 0x0A # ''Successfully created '' @ output_file @ '' (''
                                 @ format_mb env size_bytes @ '' MB)'') ''success'' st3)))))"

text \<open>
  \<open>convert\<close>: the \<open>except Exception\<close> clause logs and raises again, the \<open>finally\<close> clause
  runs \<open>cleanup\<close> on every way out; an exception of \<open>cleanup\<close> replaces the outcome.
\<close>

definition convert :: "env \<Rightarrow> string \<Rightarrow> string \<Rightarrow> state \<Rightarrow> (error + pyval) \<times> state" where
  "convert env input_file output_file st =
     (case convert_try env input_file output_file (print_banner st) of
        (r, st1) \<Rightarrow>
          (let st2 = (case r of
                        Inl e \<Rightarrow>
                          (if is_exception e
                           then log (''Conversion failed: '' @ error_str e) ''error'' st1
                           else st1)
                      | Inr v \<Rightarrow> st1)
           in case cleanup st2 of
                (Inl e', st3) \<Rightarrow> (Inl e', st3)
              | (Inr v, st3) \<Rightarrow> (r, st3)))"

text \<open>\<open>DebToApgConverter(verbose)\<close>, on a file system and an empty terminal.\<close>

definition new_converter :: "bool \<Rightarrow> (string \<rightharpoonup> node) \<Rightarrow> state" where
  "new_converter v d = \<lparr>verbose = v, temp_dir = None, current_step = 0, disk = d, tty = []\<rparr>"

text \<open>The parsed command line (attributes \<open>input\<close>, \<open>output\<close>, \<open>verbose\<close>, \<open>version\<close>).\<close>

record args =
  arg_input :: "string option"
  arg_output :: "string option"
  arg_verbose :: bool
  arg_version :: bool

text \<open>\<open>not x\<close> for an optional string: it is None or empty.\<close>

fun falsy :: "string option \<Rightarrow> bool" where
  "falsy None = True"
| "falsy (Some s) = (s = [])"

text \<open>\<open>main\<close> on a parsed command line and a file system: the exit status and the final state.\<close>

definition main :: "env \<Rightarrow> args \<Rightarrow> (string \<rightharpoonup> node) \<Rightarrow> int \<times> state" where
  "main env a d =
     (let converter = new_converter (arg_verbose a) d
      in if arg_version a then (0, print_version converter)
         else if falsy (arg_input a) \<or> falsy (arg_output a)
         then (1, converter\<lparr>tty := tty converter @ [Usage]\<rparr>)
         else (case (arg_input a, arg_output a) of
                 (Some input_file, Some output_file) \<Rightarrow>
                   (case convert env input_file output_file converter of
                      (Inr v, st) \<Rightarrow> (0, st)
                    | (Inl e, st) \<Rightarrow>
                        (if e = KeyboardInterrupt
                         then (130, st\<lparr>tty := tty st @ [Print [CHR 0x0A], Cancelled]\<rparr>)
                         else (1, st\<lparr>tty := tty st @ [ErrorLine (error_str e)]\<rparr>)))
               | _ \<Rightarrow> (1, converter\<lparr>tty := tty converter @ [Usage]\<rparr>)))"

subsection \<open>A sample package\<close>

text \<open>
  The minimal package of the specification: one control file and the payload file
  \<open>usr/bin/x\<close>, with stand-ins for the hash and the encoders, and a tool that succeeds.
\<close>

definition sample_tree :: "(string \<times> node) list" where
  "sample_tree =
     [(''DEBIAN'', Dir [(''control'', File ''Package: x'')]),
      (''usr'', Dir [(''bin'', Dir [(''x'', File ''hello'')])])]"

definition sample_env :: env where
  "sample_env =
     \<lparr>dpkg_info = (\<lambda>f. Exited 0 []),
      dpkg_contents = (\<lambda>f. Exited 0 []),
      dpkg_extract = (\<lambda>f. (sample_tree, Exited 0 [])),
      gettempdir = ''/tmp'',
      tmp_names = [''a'', ''b''],
      utcnow_isoformat = ''2025-01-06T15:56:29'',
      sha256_hexdigest = (\<lambda>b. ''sha256:'' @ b),
      json_dump = (\<lambda>d. concat (map (\<lambda>kv. fst kv @ ''='' @ snd kv @ '';'') d)),
      tar_xz = (\<lambda>ms. concat (map (\<lambda>m. fst m @ '';'') ms)),
      format_mb = (\<lambda>n. ''0.0''),
      dir_st_size = 4096\<rparr>"

definition sample_disk :: "string \<rightharpoonup> node" where
  "sample_disk = [''pkg.deb'' \<mapsto> File ''!<arch>'']"

definition sample_args :: args where
  "sample_args =
     \<lparr>arg_input = Some ''pkg.deb'', arg_output = Some ''out.apg'',
      arg_verbose = False, arg_version = False\<rparr>"




text \<open>The state after the extraction of the sample package, and after its restructuring.\<close>

definition extracted_state :: state where
  "extracted_state =
     \<lparr>verbose = False, temp_dir = Some ''/tmp/tmpa'', current_step = 1,
      disk = sample_disk(''/tmp/tmpa'' \<mapsto> Dir sample_tree),
      tty = [Progress 1 ''Extracting DEB package'']\<rparr>"


text \<open>
  A package whose payload has a top-level entry named \<open>apg\<close>: the state after its
  extraction, and an environment in which dpkg-deb unpacks it.
\<close>

definition apg_payload_state :: state where
  "apg_payload_state =
     extracted_state\<lparr>disk := sample_disk(''/tmp/tmpa'' \<mapsto>
        Dir (sample_tree @ [(''apg'', Dir [(''readme'', File ''hi'')])]))\<rparr>"

definition apg_payload_env :: env where
  "apg_payload_env =
     sample_env\<lparr>dpkg_extract :=
        \<lambda>f. (sample_tree @ [(''apg'', Dir [(''readme'', File ''hi'')])], Exited 0 [])\<rparr>"

subsection \<open>Notions used in the statements\<close>

text \<open>A root of the file system that holds a directory.\<close>

definition dir_at_root :: "(string \<rightharpoonup> node) \<Rightarrow> string \<Rightarrow> bool" where
  "dir_at_root d k = (case d k of None \<Rightarrow> False | Some n \<Rightarrow> is_dir n)"

text \<open>The tar member a node is archived as.\<close>

fun member_of :: "node \<Rightarrow> member" where
  "member_of (File b) = MemberFile b"
| "member_of (Dir es) = MemberDir"

text \<open>The paths of the files a walk lists, below the top of the walk.\<close>

definition walk_files :: "(path \<times> string list \<times> string list) list \<Rightarrow> path list" where
  "walk_files w = concat (map (\<lambda>t. map (\<lambda>f. fst t @ [f]) (snd (snd t))) w)"

text \<open>
  A file system all of whose trees are well formed: in every directory the names are
  distinct, non-empty and free of slashes.
\<close>

definition wf_disk :: "(string \<rightharpoonup> node) \<Rightarrow> bool" where
  "wf_disk d \<longleftrightarrow> (\<forall>k t. d k = Some t \<longrightarrow> wf_node t)"


section \<open>Properties\<close>

subsection \<open>Printing leaves the converter's directory and the file system alone\<close>

lemma disk_log [simp]: "disk (log m l st) = disk st"
  and temp_dir_log [simp]: "temp_dir (log m l st) = temp_dir st"
  and current_step_log [simp]: "current_step (log m l st) = current_step st"
  by (simp_all add: log_def)

lemma disk_update_progress [simp]: "disk (update_progress m st) = disk st"
  and temp_dir_update_progress [simp]: "temp_dir (update_progress m st) = temp_dir st"
  by (simp_all add: update_progress_def Let_def)

lemma disk_print_banner [simp]: "disk (print_banner st) = disk st"
  and temp_dir_print_banner [simp]: "temp_dir (print_banner st) = temp_dir st"
  by (simp_all add: print_banner_def)

lemma stat_root [simp]: "stat d (k, []) = d k"
  by (simp add: stat_def split: option.split)

subsection \<open>validate_deb\<close>

text \<open>
  C5. \<open>validate_deb\<close> raises ValueError "Input file does not exist" when the path does
  not exist and ValueError "Input file must be a .deb package" when it exists without
  the extension (the specification's InvalidInput); it raises ValueError "Invalid or
  corrupted .deb package: " followed by the tool's stderr when the information query,
  or after it the contents query, ends with a status other than 0 (InvalidPackage). In
  all these cases the state is returned as it was: nothing is created, nothing is
  extracted. When both queries end with status 0 it returns True, and the file
  system, the converter's temporary directory and its step counter are as before.
\<close>

theorem validate_deb_contract:
  "(disk st input_file = None \<longrightarrow>
      validate_deb env input_file st = (Inl (ValueError ''Input file does not exist''), st)) \<and>
   (disk st input_file \<noteq> None \<and> \<not> endswith input_file ''.deb'' \<longrightarrow>
      validate_deb env input_file st = (Inl (ValueError ''Input file must be a .deb package''), st)) \<and>
   (disk st input_file \<noteq> None \<and> endswith input_file ''.deb'' \<and>
    dpkg_info env input_file = Exited rc err \<and> rc \<noteq> 0 \<longrightarrow>
      validate_deb env input_file st =
        (Inl (ValueError (''Invalid or corrupted .deb package: '' @ err)), st)) \<and>
   (disk st input_file \<noteq> None \<and> endswith input_file ''.deb'' \<and>
    dpkg_info env input_file = Exited 0 err_info \<and>
    dpkg_contents env input_file = Exited rc err \<and> rc \<noteq> 0 \<longrightarrow>
      validate_deb env input_file st =
        (Inl (ValueError (''Invalid or corrupted .deb package: '' @ err)), st)) \<and>
   (disk st input_file \<noteq> None \<and> endswith input_file ''.deb'' \<and>
    dpkg_info env input_file = Exited 0 err_info \<and>
    dpkg_contents env input_file = Exited 0 err_contents \<longrightarrow>
      fst (validate_deb env input_file st) = Inr (PyBool True) \<and>
      disk (snd (validate_deb env input_file st)) = disk st \<and>
      temp_dir (snd (validate_deb env input_file st)) = temp_dir st \<and>
      current_step (snd (validate_deb env input_file st)) = current_step st)"
  by (simp add: validate_deb_def)

theorem validate_deb_contract_witness:
  "validate_deb sample_env ''pkg.deb'' (new_converter False Map.empty) =
     (Inl (ValueError ''Input file does not exist''), new_converter False Map.empty) \<and>
   validate_deb sample_env ''foo.txt'' (new_converter False [''foo.txt'' \<mapsto> File ''text'']) =
     (Inl (ValueError ''Input file must be a .deb package''),
      new_converter False [''foo.txt'' \<mapsto> File ''text'']) \<and>
   validate_deb (sample_env\<lparr>dpkg_info := \<lambda>f. Exited 2 ''not a Debian format archive''\<rparr>)
       ''pkg.deb'' (new_converter False sample_disk) =
     (Inl (ValueError ''Invalid or corrupted .deb package: not a Debian format archive''),
      new_converter False sample_disk) \<and>
   validate_deb (sample_env\<lparr>dpkg_contents := \<lambda>f. Exited 2 ''unexpected end of file''\<rparr>)
       ''pkg.deb'' (new_converter False sample_disk) =
     (Inl (ValueError ''Invalid or corrupted .deb package: unexpected end of file''),
      new_converter False sample_disk) \<and>
   fst (validate_deb sample_env ''pkg.deb'' (new_converter False sample_disk)) = Inr (PyBool True) \<and>
   disk (snd (validate_deb sample_env ''pkg.deb'' (new_converter False sample_disk))) = sample_disk"
  using validate_deb_contract [where st = "new_converter False Map.empty"
      and input_file = "''pkg.deb''" and env = sample_env]
    validate_deb_contract [where st = "new_converter False [''foo.txt'' \<mapsto> File ''text'']"
      and input_file = "''foo.txt''" and env = sample_env]
    validate_deb_contract [where st = "new_converter False sample_disk"
      and input_file = "''pkg.deb''" and rc = 2 and err = "''not a Debian format archive''"
      and env = "sample_env\<lparr>dpkg_info := \<lambda>f. Exited 2 ''not a Debian format archive''\<rparr>"]
    validate_deb_contract [where st = "new_converter False sample_disk"
      and input_file = "''pkg.deb''" and rc = 2 and err = "''unexpected end of file''"
      and err_info = "[]"
      and env = "sample_env\<lparr>dpkg_contents := \<lambda>f. Exited 2 ''unexpected end of file''\<rparr>"]
    validate_deb_contract [where st = "new_converter False sample_disk"
      and input_file = "''pkg.deb''" and err_info = "[]" and err_contents = "[]"
      and env = sample_env]
  by (simp add: new_converter_def sample_disk_def sample_env_def endswith_def)

subsection \<open>mkdtemp, cleanup and extract_deb\<close>

lemma path_join_nonempty: "b \<noteq> [] \<Longrightarrow> path_join a b \<noteq> []"
  by (simp add: path_join_def)

lemma mkdtemp_Inr:
  assumes "mkdtemp env d = Inr (tmp, d')"
  shows "tmp \<noteq> [] \<and> d tmp = None \<and> d' = d(tmp \<mapsto> Dir [])"
proof -
  from assms obtain p
    where f: "find (\<lambda>p. d p = None) (map (tmp_path env) (tmp_names env)) = Some p"
      and p: "p = tmp" and d': "d' = d(p \<mapsto> Dir [])"
    by (auto simp: mkdtemp_def split: option.splits)
  from f have "d p = None" and "p \<in> set (map (tmp_path env) (tmp_names env))"
    by (auto simp: find_Some_iff)
  then show ?thesis
    using p d' by (auto simp: tmp_path_def path_join_nonempty)
qed

lemma cleanup_dir:
  assumes "temp_dir st = Some tmp" and "tmp \<noteq> []" and "disk st tmp = Some (Dir es)"
  shows "cleanup st = (Inr PyNone, st\<lparr>disk := (disk st)(tmp := None)\<rparr>)"
  using assms by (simp add: cleanup_def shutil_rmtree_def unlink_def)

lemma extract_deb_failure:
  assumes "mkdtemp env (disk st) = Inr (tmp, d)"
    and "dpkg_extract env input_file = (es, Exited rc err)"
    and "rc \<noteq> 0"
  shows "extract_deb env input_file st =
      (Inl (RuntimeError (''Failed to extract .deb: '' @ err)),
       (update_progress ''Extracting DEB package''
          (log (''Extracting '' @ input_file @ ''...'') ''process'' st))
        \<lparr>temp_dir := Some tmp, disk := disk st\<rparr>)"
proof -
  from mkdtemp_Inr [OF assms(1)] have tmp: "tmp \<noteq> []" and free: "disk st tmp = None"
    and d: "d = (disk st)(tmp \<mapsto> Dir [])" by simp_all
  let ?st2 = "update_progress ''Extracting DEB package''
                (log (''Extracting '' @ input_file @ ''...'') ''process'' st)"
  let ?st4 = "?st2\<lparr>temp_dir := Some tmp, disk := d(tmp \<mapsto> Dir es)\<rparr>"
  have c: "cleanup ?st4 = (Inr PyNone, ?st4\<lparr>disk := (disk ?st4)(tmp := None)\<rparr>)"
    by (rule cleanup_dir) (simp_all add: tmp)
  have "(d(tmp \<mapsto> Dir es))(tmp := None) = disk st"
    using free d by (auto simp: fun_eq_iff)
  then show ?thesis
    using assms c by (simp add: extract_deb_def Let_def)
qed



subsection \<open>Directory trees: what \<open>put\<close>, \<open>remove\<close> and \<open>makedirs_at\<close> change\<close>

lemma put_is_dir: "put (Dir es) (x # p) n = Some t \<Longrightarrow> is_dir t"
  by (auto split: if_splits option.splits)

lemma remove_is_dir: "remove (Dir es) (x # p) = Some t \<Longrightarrow> is_dir t"
  by (auto split: if_splits option.splits)

lemma makedirs_at_is_dir: "makedirs_at (Dir es) (x # p) = Some t \<Longrightarrow> is_dir t"
  by (auto split: option.splits)

lemma node_at_put_other:
  "put t p n = Some t' \<Longrightarrow> \<not> prefix p q \<Longrightarrow> \<not> prefix q p \<Longrightarrow> node_at t' q = node_at t q"
proof (induction t p n arbitrary: t' q rule: put.induct)
  case (3 es x p n)
  then obtain y q' where q: "q = y # q'" by (cases q) auto
  show ?case
  proof (cases "p = []")
    case True
    with 3 q show ?thesis by (auto simp: update_conv')
  next
    case False
    with "3.prems" obtain c c' where c: "map_of es x = Some c" and c': "put c p n = Some c'"
      and t': "t' = Dir (AList.update x c' es)"
      by (auto split: option.splits)
    show ?thesis
    proof (cases "y = x")
      case True
      with "3.prems" q have "\<not> prefix p q'" "\<not> prefix q' p" by auto
      with "3.IH" [OF False c c'] have "node_at c' q' = node_at c q'" by blast
      with True q t' c show ?thesis by (simp add: update_conv')
    next
      case False
      with q t' show ?thesis by (simp add: update_conv')
    qed
  qed
qed simp_all

lemma node_at_put_same: "put t p n = Some t' \<Longrightarrow> node_at t' (p @ q) = node_at n q"
proof (induction t p n arbitrary: t' rule: put.induct)
  case (3 es x p n)
  then show ?case
    by (cases "p = []") (auto simp: update_conv' split: option.splits)
qed simp_all

lemma node_at_remove_other:
  "remove t p = Some t' \<Longrightarrow> \<not> prefix p q \<Longrightarrow> \<not> prefix q p \<Longrightarrow> node_at t' q = node_at t q"
proof (induction t p arbitrary: t' q rule: remove.induct)
  case (3 es x p)
  then obtain y q' where q: "q = y # q'" by (cases q) auto
  from "3.prems" obtain c where c: "map_of es x = Some c" by (auto split: option.splits)
  show ?case
  proof (cases "p = []")
    case True
    with 3 q c show ?thesis by (auto simp: delete_conv')
  next
    case False
    with "3.prems" c obtain c' where c': "remove c p = Some c'"
      and t': "t' = Dir (AList.update x c' es)"
      by (auto split: option.splits)
    show ?thesis
    proof (cases "y = x")
      case True
      with "3.prems" q have "\<not> prefix p q'" "\<not> prefix q' p" by auto
      with "3.IH" [OF c False c'] have "node_at c' q' = node_at c q'" by blast
      with True q t' c show ?thesis by (simp add: update_conv')
    next
      case False
      with q t' show ?thesis by (simp add: update_conv')
    qed
  qed
qed simp_all

lemma node_at_makedirs_at_other:
  "makedirs_at t p = Some t' \<Longrightarrow> \<not> prefix p q \<Longrightarrow> \<not> prefix q p \<Longrightarrow> node_at t' q = node_at t q"
proof (induction t p arbitrary: t' q rule: makedirs_at.induct)
  case (3 es x p)
  then obtain y q' where q: "q = y # q'" by (cases q) auto
  let ?c = "case map_of es x of None \<Rightarrow> Dir [] | Some c \<Rightarrow> c"
  from "3.prems" obtain c' where c': "makedirs_at ?c p = Some c'"
    and t': "t' = Dir (AList.update x c' es)"
    by (auto split: option.splits)
  show ?case
  proof (cases "y = x")
    case True
    with "3.prems" q have np: "\<not> prefix p q'" "\<not> prefix q' p" by auto
    with "3.IH" [OF c'] have e: "node_at c' q' = node_at ?c q'" by blast
    from np have "q' \<noteq> []" by auto
    then have "node_at (Dir []) q' = None" by (cases q') auto
    with e True q t' show ?thesis by (simp add: update_conv' split: option.splits)
  next
    case False
    with q t' show ?thesis by (simp add: update_conv')
  qed
qed simp_all

lemma node_at_makedirs_at_same:
  "makedirs_at t p = Some t' \<Longrightarrow> node_at t p = None \<Longrightarrow> node_at t' p = Some (Dir [])"
proof (induction t p arbitrary: t' rule: makedirs_at.induct)
  case (3 es x p)
  then show ?case
    by (cases p) (auto simp: update_conv' split: option.splits)
qed simp_all

subsection \<open>The operations below a root keep the root a directory\<close>

lemma dir_at_root_upd_other [simp]: "k \<noteq> k' \<Longrightarrow> dir_at_root (d(k' := v)) k = dir_at_root d k"
  by (simp add: dir_at_root_def)

lemma dir_at_root_upd_same [simp]: "dir_at_root (d(k \<mapsto> n)) k = is_dir n"
  by (simp add: dir_at_root_def)

lemma dir_at_root_Dir: "dir_at_root d k \<Longrightarrow> \<exists>es. d k = Some (Dir es)"
  by (auto simp: dir_at_root_def split: option.splits elim: is_dir.elims)

lemma bind_node_keeps_dir:
  assumes "bind_node d l n = Some d'" and "dir_at_root d k" and "snd l = [] \<longrightarrow> fst l \<noteq> k"
  shows "dir_at_root d' k"
proof (cases "fst l = k")
  case True
  with assms obtain x p where p: "snd l = x # p" by (cases "snd l") auto
  from dir_at_root_Dir [OF assms(2)] obtain es where es: "d k = Some (Dir es)" ..
  with assms(1) True p obtain t where "put (Dir es) (x # p) n = Some t" and "d' = d(k \<mapsto> t)"
    by (auto simp: bind_node_def split: option.splits)
  with put_is_dir show ?thesis by auto
next
  case False
  with assms show ?thesis
    by (auto simp: bind_node_def split: option.splits if_splits)
qed

lemma unlink_keeps_dir:
  assumes "unlink d l = Some d'" and "dir_at_root d k" and "snd l = [] \<longrightarrow> fst l \<noteq> k"
  shows "dir_at_root d' k"
proof (cases "fst l = k")
  case True
  with assms obtain x p where p: "snd l = x # p" by (cases "snd l") auto
  from dir_at_root_Dir [OF assms(2)] obtain es where es: "d k = Some (Dir es)" ..
  with assms(1) True p obtain t where "remove (Dir es) (x # p) = Some t" and "d' = d(k \<mapsto> t)"
    by (auto simp: unlink_def split: option.splits)
  with remove_is_dir show ?thesis by auto
next
  case False
  with assms show ?thesis
    by (auto simp: unlink_def split: option.splits if_splits)
qed

lemma os_makedirs_keeps_dir:
  assumes "os_makedirs d l = Inr d'" and "dir_at_root d k"
  shows "dir_at_root d' k"
proof (cases "fst l = k")
  case True
  from dir_at_root_Dir [OF assms(2)] obtain es where es: "d k = Some (Dir es)" ..
  from assms(1) have "stat d l = None" by (auto simp: os_makedirs_def split: if_splits)
  with es True obtain x p where p: "snd l = x # p" by (cases "snd l") (auto simp: stat_def)
  with assms(1) True es obtain t where "makedirs_at (Dir es) (x # p) = Some t" and "d' = d(k \<mapsto> t)"
    by (auto simp: os_makedirs_def split: option.splits if_splits)
  with makedirs_at_is_dir show ?thesis by auto
next
  case False
  with assms show ?thesis
    by (auto simp: os_makedirs_def split: option.splits if_splits)
qed

lemma os_rename_keeps_dir:
  assumes "os_rename d src dst = Inr d'" and "dir_at_root d k" and "snd src \<noteq> []" and "snd dst \<noteq> []"
  shows "dir_at_root d' k"
proof -
  from assms(1) obtain n d1 where "unlink d src = Some d1" and "bind_node d1 dst n = Some d'"
    by (auto simp: os_rename_def split: option.splits if_splits)
  with assms(2-4) show ?thesis
    by (meson bind_node_keeps_dir unlink_keeps_dir)
qed

lemma shutil_move_Inr:
  assumes "shutil_move d src dst = Inr d'"
  shows "os_rename d src dst = Inr d' \<or>
         os_rename d src (loc_join dst (loc_basename src)) = Inr d'"
  using assms
  by (auto simp: shutil_move_def Let_def split: option.splits node.splits if_splits sum.splits)

lemma shutil_move_keeps_dir:
  assumes "shutil_move d src dst = Inr d'" and "dir_at_root d k" and "snd src \<noteq> []" and "snd dst \<noteq> []"
  shows "dir_at_root d' k"
  using shutil_move_Inr [OF assms(1)] assms(2-4)
  by (auto simp: loc_join_def dest: os_rename_keeps_dir)

lemma write_file_keeps_dir:
  assumes "write_file d l c = Inr d'" and "dir_at_root d k"
  shows "dir_at_root d' k"
proof -
  from assms(1) have b: "bind_node d l (File c) = Some d'" and s: "\<forall>es. stat d l \<noteq> Some (Dir es)"
    by (auto simp: write_file_def split: option.splits node.splits)
  have "snd l = [] \<longrightarrow> fst l \<noteq> k"
  proof (intro impI notI)
    assume "snd l = []" and "fst l = k"
    then have "stat d l = d k" by (simp add: stat_def split: option.splits)
    with s dir_at_root_Dir [OF assms(2)] show False by auto
  qed
  with b assms(2) show ?thesis by (rule bind_node_keeps_dir)
qed

lemma move_items_keeps_dir:
  "dir_at_root d k \<Longrightarrow> data_dest = loc_join l x \<Longrightarrow>
   dir_at_root (snd (move_items d data_source data_dest items)) k"
proof (induction items arbitrary: d)
  case Nil
  then show ?case by simp
next
  case (Cons item items)
  show ?case
  proof (cases "shutil_move d (loc_join data_source item) (loc_join data_dest item)")
    case (Inl e)
    with Cons show ?thesis by simp
  next
    case (Inr d1)
    then have "dir_at_root d1 k"
      using Cons.prems(1) by (rule shutil_move_keeps_dir) (simp_all add: loc_join_def)
    with Cons Inr show ?thesis by simp
  qed
qed

lemma restructure_keeps:
  "temp_dir (snd (restructure st)) = temp_dir st"
  "dir_at_root (disk st) k \<Longrightarrow> dir_at_root (disk (snd (restructure st))) k"
proof -
  show "temp_dir (snd (restructure st)) = temp_dir st"
    by (simp add: restructure_def Let_def split: option.splits sum.splits prod.splits)
  assume k: "dir_at_root (disk st) k"
  show "dir_at_root (disk (snd (restructure st))) k"
  proof (cases "temp_dir st")
    case None
    with k show ?thesis by (simp add: restructure_def)
  next
    case (Some tmp)
    let ?apg = "loc_join (tmp, []) ''apg''"
    show ?thesis
    proof (cases "os_makedirs (disk st) ?apg")
      case (Inl e)
      with Some k show ?thesis by (simp add: restructure_def)
    next
      case d1: (Inr d1)
      then have k1: "dir_at_root d1 k" using k by (rule os_makedirs_keeps_dir)
      show ?thesis
      proof (cases "os_makedirs d1 (loc_join ?apg ''data'')")
        case (Inl e)
        with Some d1 k1 show ?thesis by (simp add: restructure_def)
      next
        case d2: (Inr d2)
        then have k2: "dir_at_root d2 k" using k1 by (rule os_makedirs_keeps_dir)
        show ?thesis
        proof (cases "os_listdir d2 (tmp, [])")
          case (Inl e)
          with Some d1 d2 k2 show ?thesis by (simp add: restructure_def)
        next
          case (Inr items)
          from move_items_keeps_dir [OF k2 refl]
          have "dir_at_root (snd (move_items d2 (tmp, []) (loc_join ?apg ''data'') items)) k" .
          with Some d1 d2 Inr show ?thesis
            by (simp add: restructure_def Let_def case_prod_beta)
        qed
      qed
    qed
  qed
qed

lemma generate_metadata_state:
  "disk (snd (generate_metadata env st)) = disk st"
  "temp_dir (snd (generate_metadata env st)) = temp_dir st"
  by (simp_all add: generate_metadata_def Let_def split: option.splits sum.splits)

lemma calculate_checksums_state:
  "disk (snd (calculate_checksums env directory st)) = disk st"
  "temp_dir (snd (calculate_checksums env directory st)) = temp_dir st"
  by (simp_all add: calculate_checksums_def Let_def split: option.splits sum.splits)

lemma dump_to_keeps:
  assumes "\<And>s. disk (snd (produce s)) = disk s" and "\<And>s. temp_dir (snd (produce s)) = temp_dir s"
  shows "temp_dir (snd (dump_to env name produce st)) = temp_dir st"
    and "dir_at_root (disk st) k \<Longrightarrow> dir_at_root (disk (snd (dump_to env name produce st))) k"
proof -
  show "temp_dir (snd (dump_to env name produce st)) = temp_dir st"
  proof (cases "write_file (disk st) name []")
    case (Inl e)
    then show ?thesis by (simp add: dump_to_def)
  next
    case (Inr d1)
    obtain r st1 where p: "produce (st\<lparr>disk := d1\<rparr>) = (r, st1)" by (cases "produce (st\<lparr>disk := d1\<rparr>)")
    with assms(2) [of "st\<lparr>disk := d1\<rparr>"] have "temp_dir st1 = temp_dir st" by simp
    with Inr p show ?thesis
      by (simp add: dump_to_def split: sum.splits)
  qed
  assume k: "dir_at_root (disk st) k"
  show "dir_at_root (disk (snd (dump_to env name produce st))) k"
  proof (cases "write_file (disk st) name []")
    case (Inl e)
    with k show ?thesis by (simp add: dump_to_def)
  next
    case (Inr d1)
    then have k1: "dir_at_root d1 k" using k by (rule write_file_keeps_dir)
    obtain r st1 where p: "produce (st\<lparr>disk := d1\<rparr>) = (r, st1)" by (cases "produce (st\<lparr>disk := d1\<rparr>)")
    with assms(1) [of "st\<lparr>disk := d1\<rparr>"] have d: "disk st1 = d1" by simp
    show ?thesis
    proof (cases r)
      case (Inl e)
      with Inr p d k1 show ?thesis by (simp add: dump_to_def)
    next
      case v: (Inr v)
      show ?thesis
      proof (cases "write_file (disk st1) name (json_dump env v)")
        case (Inl e)
        with Inr p d k1 v show ?thesis by (simp add: dump_to_def)
      next
        case d2: (Inr d2)
        then have "dir_at_root d2 k" using k1 d by (auto intro: write_file_keeps_dir)
        with Inr p v d2 show ?thesis by (simp add: dump_to_def)
      qed
    qed
  qed
qed

lemma write_archive_keeps:
  "temp_dir (snd (write_archive env output_file apg_root st)) = temp_dir st"
  "dir_at_root (disk st) k \<Longrightarrow> dir_at_root (disk (snd (write_archive env output_file apg_root st))) k"
proof -
  show "temp_dir (snd (write_archive env output_file apg_root st)) = temp_dir st"
    by (simp add: write_archive_def split: sum.splits option.splits)
  assume k: "dir_at_root (disk st) k"
  show "dir_at_root (disk (snd (write_archive env output_file apg_root st))) k"
  proof (cases "write_file (disk st) (output_file, []) []")
    case (Inl e)
    with k show ?thesis by (simp add: write_archive_def)
  next
    case (Inr d1)
    then have k1: "dir_at_root d1 k" using k by (rule write_file_keeps_dir)
    with Inr show ?thesis
      by (auto simp: write_archive_def split: option.splits sum.splits
          intro: write_file_keeps_dir)
  qed
qed

lemma dump_metadata_keeps:
  "temp_dir (snd (dump_to env name (generate_metadata env) st)) = temp_dir st"
  "dir_at_root (disk st) k \<Longrightarrow>
   dir_at_root (disk (snd (dump_to env name (generate_metadata env) st))) k"
  by (rule dump_to_keeps; simp add: generate_metadata_state)+

lemma dump_checksums_keeps:
  "temp_dir (snd (dump_to env name (calculate_checksums env directory) st)) = temp_dir st"
  "dir_at_root (disk st) k \<Longrightarrow>
   dir_at_root (disk (snd (dump_to env name (calculate_checksums env directory) st))) k"
  by (rule dump_to_keeps; simp add: calculate_checksums_state)+

lemma create_apg_keeps:
  "temp_dir (snd (create_apg env output_file st)) = temp_dir st"
  "dir_at_root (disk st) k \<Longrightarrow> dir_at_root (disk (snd (create_apg env output_file st))) k"
proof -
  let ?st0 = "log ''Creating APG structure...'' ''process'' st"
  obtain r1 st1 where r: "restructure ?st0 = (r1, st1)" by (cases "restructure ?st0")
  from restructure_keeps(1) [of ?st0] r have t1: "temp_dir st1 = temp_dir st" by simp
  have *: "temp_dir (snd (create_apg env output_file st)) = temp_dir st \<and>
     (dir_at_root (disk st1) k \<longrightarrow> dir_at_root (disk (snd (create_apg env output_file st))) k)"
  proof (cases r1)
    case (Inl e)
    with r t1 show ?thesis by (simp add: create_apg_def)
  next
    case v: (Inr v)
    show ?thesis
    proof (cases "temp_dir st1")
      case None
      with r v t1 show ?thesis by (simp add: create_apg_def)
    next
      case (Some tmp)
      let ?apg = "loc_join (tmp, []) ''apg''"
      let ?m = "dump_to env (loc_join ?apg ''metadata.json'') (generate_metadata env) st1"
      obtain r2 st2 where m: "?m = (r2, st2)" by (cases ?m)
      from dump_metadata_keeps(1) [where st = st1 and env = env and name = "loc_join ?apg ''metadata.json''"]
        dump_metadata_keeps(2) [where st = st1 and env = env and k = k and name = "loc_join ?apg ''metadata.json''"] m
      have t2: "temp_dir st2 = temp_dir st1"
        and k2: "dir_at_root (disk st1) k \<Longrightarrow> dir_at_root (disk st2) k" by simp_all
      let ?c = "dump_to env (loc_join ?apg ''checksums.json'')
          (calculate_checksums env (loc_join ?apg ''data'')) st2"
      obtain r3 st3 where c: "?c = (r3, st3)" by (cases ?c)
      from dump_checksums_keeps(1) [where st = st2 and env = env
          and name = "loc_join ?apg ''checksums.json''" and directory = "loc_join ?apg ''data''"]
        dump_checksums_keeps(2) [where st = st2 and env = env and k = k
          and name = "loc_join ?apg ''checksums.json''" and directory = "loc_join ?apg ''data''"] c
      have t3: "temp_dir st3 = temp_dir st2"
        and k3: "dir_at_root (disk st2) k \<Longrightarrow> dir_at_root (disk st3) k" by simp_all
      let ?w = "write_archive env output_file ?apg (update_progress ''Creating APG archive'' st3)"
      from write_archive_keeps(1) [where st = "update_progress ''Creating APG archive'' st3"
          and env = env and output_file = output_file and apg_root = ?apg]
        write_archive_keeps(2) [where st = "update_progress ''Creating APG archive'' st3"
          and env = env and output_file = output_file and apg_root = ?apg and k = k]
      have t4: "temp_dir (snd ?w) = temp_dir st3"
        and k4: "dir_at_root (disk st3) k \<Longrightarrow> dir_at_root (disk (snd ?w)) k" by simp_all
      have "create_apg env output_file st =
        (case r2 of Inl e \<Rightarrow> (Inl e, st2) | Inr v \<Rightarrow>
           (case r3 of Inl e \<Rightarrow> (Inl e, st3) | Inr v \<Rightarrow> ?w))"
        using r v Some m c by (simp add: create_apg_def Let_def split: sum.split)
      with t1 t2 t3 t4 k2 k3 k4 show ?thesis
        by (auto split: sum.splits)
    qed
  qed
  from * show "temp_dir (snd (create_apg env output_file st)) = temp_dir st" ..
  assume k: "dir_at_root (disk st) k"
  with restructure_keeps(2) [of ?st0 k] r have "dir_at_root (disk st1) k" by simp
  with * show "dir_at_root (disk (snd (create_apg env output_file st))) k" by blast
qed

subsection \<open>convert removes the temporary directory\<close>


lemma extract_deb_outcome:
  assumes "mkdtemp env (disk st) = Inr (tmp, d)"
  shows "temp_dir (snd (extract_deb env input_file st)) = Some tmp \<and>
    (case fst (extract_deb env input_file st) of
       Inl e \<Rightarrow> disk (snd (extract_deb env input_file st)) tmp = None \<or>
                 dir_at_root (disk (snd (extract_deb env input_file st))) tmp
     | Inr v \<Rightarrow> dir_at_root (disk (snd (extract_deb env input_file st))) tmp)"
proof -
  from mkdtemp_Inr [OF assms(1)] have free: "disk st tmp = None" by simp
  obtain es res where x: "dpkg_extract env input_file = (es, res)"
    by (cases "dpkg_extract env input_file")
  show ?thesis
  proof (cases res)
    case Interrupted
    with assms x show ?thesis by (simp add: extract_deb_def Let_def)
  next
    case (Exited rc err)
    show ?thesis
    proof (cases "rc = 0")
      case True
      with assms x Exited show ?thesis by (simp add: extract_deb_def Let_def)
    next
      case False
      from extract_deb_failure [OF assms x [unfolded Exited] False] free
      show ?thesis by simp
    qed
  qed
qed






subsection \<open>main\<close>




subsection \<open>generate_metadata\<close>




lemma extracted_state_is_extract_deb:
  "extract_deb sample_env ''pkg.deb'' (new_converter False sample_disk) = (Inr PyNone, extracted_state)"
  by (simp add: extract_deb_def mkdtemp_def sample_env_def sample_disk_def tmp_path_def
      path_join_def new_converter_def log_def update_progress_def Let_def total_steps_def
      extracted_state_def)


subsection \<open>calculate_checksums\<close>

lemma slash_split:
  assumes "CHR ''/'' \<notin> set x" and "CHR ''/'' \<notin> set y"
    and "x @ CHR ''/'' # r = y @ CHR ''/'' # s"
  shows "x = y \<and> r = s"
proof -
  have "takeWhile (\<lambda>c. c \<noteq> CHR ''/'') (x @ CHR ''/'' # r) = x"
    using assms(1) by (auto simp: takeWhile_tail)
  moreover have "takeWhile (\<lambda>c. c \<noteq> CHR ''/'') (y @ CHR ''/'' # s) = y"
    using assms(2) by (auto simp: takeWhile_tail)
  ultimately have "x = y" using assms(3) by simp
  with assms(3) show ?thesis by simp
qed

lemma rel_path_Cons:
  "p \<noteq> [] \<Longrightarrow> rel_path (x # p) = x @ CHR ''/'' # rel_path p"
  by (cases p) simp_all

lemma rel_path_inj:
  assumes "\<forall>x \<in> set p. valid_name x" and "\<forall>x \<in> set q. valid_name x"
    and "p \<noteq> []" and "q \<noteq> []" and "rel_path p = rel_path q"
  shows "p = q"
  using assms
proof (induction p arbitrary: q)
  case Nil
  then show ?case by simp
next
  case (Cons x p)
  from Cons.prems obtain y q' where q: "q = y # q'" by (cases q) auto
  from Cons.prems q have vx: "CHR ''/'' \<notin> set x" and vy: "CHR ''/'' \<notin> set y"
    by (auto simp: valid_name_def)
  show ?case
  proof (cases "p = []")
    case True
    show ?thesis
    proof (cases "q' = []")
      case True
      with \<open>p = []\<close> Cons.prems q show ?thesis by simp
    next
      case False
      with True Cons.prems q have "x = y @ CHR ''/'' # rel_path q'"
        by (simp add: rel_path_Cons)
      with vx show ?thesis by auto
    qed
  next
    case False
    show ?thesis
    proof (cases "q' = []")
      case True
      with False Cons.prems q have "y = x @ CHR ''/'' # rel_path p"
        by (simp add: rel_path_Cons)
      with vy show ?thesis by auto
    next
      case q': False
      with False Cons.prems q have "x @ CHR ''/'' # rel_path p = y @ CHR ''/'' # rel_path q'"
        by (simp add: rel_path_Cons)
      from slash_split [OF vx vy this] have xy: "x = y" and r: "rel_path p = rel_path q'" by simp_all
      from Cons.IH [OF _ _ False q' r] Cons.prems q have "p = q'" by simp
      with xy q show ?thesis by simp
    qed
  qed
qed


lemma wf_node_at:
  "wf_node t \<Longrightarrow> node_at t p = Some n \<Longrightarrow> (\<forall>x \<in> set p. valid_name x) \<and> wf_node n"
proof (induction t p arbitrary: n rule: node_at.induct)
  case (3 es x p)
  from "3.prems" obtain c where c: "map_of es x = Some c" and n: "node_at c p = Some n"
    by (auto split: option.splits)
  from c have "(x, c) \<in> set es" by (rule map_of_SomeD)
  with "3.prems"(1) have "valid_name x" "wf_node c" by auto
  with "3.IH" [OF c _ n] show ?case by simp
qed simp_all

lemma node_at_append:
  "node_at t (p @ q) = (case node_at t p of None \<Rightarrow> None | Some n \<Rightarrow> node_at n q)"
  by (induction t p rule: node_at.induct) (auto split: option.splits)

lemma stat_append:
  "stat d (k, p) = Some t \<Longrightarrow> stat d (k, p @ q) = node_at t q"
  by (auto simp: stat_def node_at_append split: option.splits)

lemma walk_files_simps [simp]:
  "walk_files [] = []"
  "walk_files ((root, dirs, files) # w) = map (\<lambda>f. root @ [f]) files @ walk_files w"
  "walk_files (u @ w) = walk_files u @ walk_files w"
  by (simp_all add: walk_files_def)







subsection \<open>The file system: what the operations change at other paths\<close>

lemma stat_bind_node_other:
  assumes "bind_node d l n = Some d'"
    and "fst l = k \<longrightarrow> \<not> prefix (snd l) q \<and> \<not> prefix q (snd l)"
  shows "stat d' (k, q) = stat d (k, q)"
proof (cases "fst l = k")
  case True
  with assms(2) have np: "\<not> prefix (snd l) q" "\<not> prefix q (snd l)" by simp_all
  then have "snd l \<noteq> []" by auto
  with assms(1) True obtain t t' where "d k = Some t" "put t (snd l) n = Some t'" "d' = d(k \<mapsto> t')"
    by (auto simp: bind_node_def split: option.splits)
  with node_at_put_other [OF this(2) np] show ?thesis by (simp add: stat_def)
next
  case False
  with assms(1) show ?thesis
    by (auto simp: bind_node_def stat_def split: option.splits if_splits)
qed

lemma stat_bind_node_same:
  assumes "bind_node d (k, p) n = Some d'"
  shows "stat d' (k, p @ q) = node_at n q"
proof (cases "p = []")
  case True
  with assms show ?thesis by (auto simp: bind_node_def stat_def)
next
  case False
  with assms obtain t t' where "d k = Some t" "put t p n = Some t'" "d' = d(k \<mapsto> t')"
    by (auto simp: bind_node_def split: option.splits)
  with node_at_put_same [OF this(2), of q] show ?thesis by (simp add: stat_def)
qed

lemma stat_unlink_other:
  assumes "unlink d l = Some d'"
    and "fst l = k \<longrightarrow> \<not> prefix (snd l) q \<and> \<not> prefix q (snd l)"
  shows "stat d' (k, q) = stat d (k, q)"
proof (cases "fst l = k")
  case True
  with assms(2) have np: "\<not> prefix (snd l) q" "\<not> prefix q (snd l)" by simp_all
  then have "snd l \<noteq> []" by auto
  with assms(1) True obtain t t' where "d k = Some t" "remove t (snd l) = Some t'" "d' = d(k \<mapsto> t')"
    by (auto simp: unlink_def split: option.splits)
  with node_at_remove_other [OF this(2) np] show ?thesis by (simp add: stat_def)
next
  case False
  with assms(1) show ?thesis
    by (auto simp: unlink_def stat_def split: option.splits if_splits)
qed

lemma stat_os_makedirs_other:
  assumes "os_makedirs d l = Inr d'"
    and "fst l = k \<longrightarrow> \<not> prefix (snd l) q \<and> \<not> prefix q (snd l)"
  shows "stat d' (k, q) = stat d (k, q)"
proof (cases "fst l = k")
  case True
  with assms(2) have np: "\<not> prefix (snd l) q" "\<not> prefix q (snd l)" by simp_all
  let ?t = "case d k of None \<Rightarrow> Dir [] | Some t \<Rightarrow> t"
  from assms(1) True obtain t' where m: "makedirs_at ?t (snd l) = Some t'" and d': "d' = d(k \<mapsto> t')"
    by (auto simp: os_makedirs_def split: option.splits if_splits)
  from np have "q \<noteq> []" by auto
  then have "node_at (Dir []) q = None" by (cases q) auto
  with node_at_makedirs_at_other [OF m np] d' show ?thesis
    by (simp add: stat_def split: option.splits)
next
  case False
  with assms(1) show ?thesis
    by (auto simp: os_makedirs_def stat_def split: option.splits if_splits)
qed

lemma stat_os_makedirs_same:
  assumes "os_makedirs d (k, p) = Inr d'"
  shows "stat d' (k, p) = Some (Dir [])"
proof -
  let ?t = "case d k of None \<Rightarrow> Dir [] | Some t \<Rightarrow> t"
  from assms obtain t' where s: "stat d (k, p) = None"
    and m: "makedirs_at ?t p = Some t'" and d': "d' = d(k \<mapsto> t')"
    by (auto simp: os_makedirs_def split: option.splits if_splits)
  show ?thesis
  proof (cases "d k")
    case None
    show ?thesis
    proof (cases p)
      case Nil
      with m d' None show ?thesis by (simp add: stat_def)
    next
      case (Cons x p')
      then have "node_at (Dir []) p = None" by simp
      with node_at_makedirs_at_same [of "Dir []" p t'] m None d' show ?thesis
        by (simp add: stat_def)
    qed
  next
    case (Some t)
    with s have "node_at t p = None" by (simp add: stat_def)
    with node_at_makedirs_at_same [of t p t'] m Some d' show ?thesis by (simp add: stat_def)
  qed
qed

lemma os_makedirs_root_dir:
  assumes "os_makedirs d (k, x # p) = Inr d'"
  shows "dir_at_root d' k"
proof -
  let ?t = "case d k of None \<Rightarrow> Dir [] | Some t \<Rightarrow> t"
  from assms obtain t' where m: "makedirs_at ?t (x # p) = Some t'" and d': "d' = d(k \<mapsto> t')"
    by (auto simp: os_makedirs_def split: option.splits if_splits)
  from m obtain es where "?t = Dir es" by (cases ?t) auto
  with m makedirs_at_is_dir have "is_dir t'" by metis
  with d' show ?thesis by simp
qed

lemma incomparable_snoc:
  "\<not> prefix p q \<Longrightarrow> \<not> prefix q p \<Longrightarrow> \<not> prefix (p @ [x]) q \<and> \<not> prefix q (p @ [x])"
  by (auto simp: prefix_snoc dest: append_prefixD)

lemma stat_os_rename_other:
  assumes "os_rename d src dst = Inr d'"
    and "fst src = k \<longrightarrow> \<not> prefix (snd src) q \<and> \<not> prefix q (snd src)"
    and "fst dst = k \<longrightarrow> \<not> prefix (snd dst) q \<and> \<not> prefix q (snd dst)"
  shows "stat d' (k, q) = stat d (k, q)"
proof -
  from assms(1) obtain n d1 where "unlink d src = Some d1" and "bind_node d1 dst n = Some d'"
    by (auto simp: os_rename_def split: option.splits if_splits)
  with assms(2,3) show ?thesis
    by (metis stat_bind_node_other stat_unlink_other)
qed

lemma stat_shutil_move_other:
  assumes "shutil_move d src dst = Inr d'"
    and "fst src = k \<longrightarrow> \<not> prefix (snd src) q \<and> \<not> prefix q (snd src)"
    and "fst dst = k \<longrightarrow> \<not> prefix (snd dst) q \<and> \<not> prefix q (snd dst)"
  shows "stat d' (k, q) = stat d (k, q)"
proof -
  from shutil_move_Inr [OF assms(1)] consider "os_rename d src dst = Inr d'"
    | "os_rename d src (loc_join dst (loc_basename src)) = Inr d'"
    by blast
  then show ?thesis
  proof cases
    case 1
    from 1 assms(2,3) show ?thesis by (rule stat_os_rename_other)
  next
    case 2
    have "fst (loc_join dst (loc_basename src)) = k \<longrightarrow>
      \<not> prefix (snd (loc_join dst (loc_basename src))) q \<and>
      \<not> prefix q (snd (loc_join dst (loc_basename src)))"
    proof
      assume "fst (loc_join dst (loc_basename src)) = k"
      then have "fst dst = k" by (simp add: loc_join_def)
      with assms(3) have "\<not> prefix (snd dst) q" "\<not> prefix q (snd dst)" by simp_all
      from incomparable_snoc [OF this, of "loc_basename src"]
      show "\<not> prefix (snd (loc_join dst (loc_basename src))) q \<and>
        \<not> prefix q (snd (loc_join dst (loc_basename src)))"
        by (simp add: loc_join_def)
    qed
    from 2 assms(2) this show ?thesis by (rule stat_os_rename_other)
  qed
qed

lemma stat_write_file_other:
  assumes "write_file d l c = Inr d'"
    and "fst l = k \<longrightarrow> \<not> prefix (snd l) q \<and> \<not> prefix q (snd l)"
  shows "stat d' (k, q) = stat d (k, q)"
proof -
  from assms(1) have "bind_node d l (File c) = Some d'"
    by (auto simp: write_file_def split: option.splits node.splits)
  with assms(2) show ?thesis by (metis stat_bind_node_other)
qed

lemma stat_write_file_same:
  assumes "write_file d l c = Inr d'"
  shows "stat d' l = Some (File c)"
proof -
  from assms have "bind_node d (fst l, snd l) (File c) = Some d'"
    by (auto simp: write_file_def split: option.splits node.splits)
  from stat_bind_node_same [OF this, of "[]"] show ?thesis by simp
qed

lemma write_file_root_other:
  assumes "write_file d (k', []) c = Inr d'" and "dir_at_root d k"
  shows "k' \<noteq> k \<and> d' = d(k' \<mapsto> File c)"
  using assms dir_at_root_Dir [OF assms(2)]
  by (auto simp: write_file_def bind_node_def split: option.splits node.splits)

subsection \<open>The restructuring step\<close>

lemma stat_move_items_other:
  assumes "\<forall>item \<in> set items. item \<noteq> ''DEBIAN'' \<and> item \<noteq> ''apg'' \<longrightarrow>
      (fst data_source = k \<longrightarrow>
         \<not> prefix (snd data_source @ [item]) q \<and> \<not> prefix q (snd data_source @ [item])) \<and>
      (fst data_dest = k \<longrightarrow>
         \<not> prefix (snd data_dest @ [item]) q \<and> \<not> prefix q (snd data_dest @ [item]))"
  shows "stat (snd (move_items d data_source data_dest items)) (k, q) = stat d (k, q)"
  using assms
proof (induction items arbitrary: d)
  case Nil
  then show ?case by simp
next
  case (Cons item items)
  show ?case
  proof (cases "item \<noteq> ''DEBIAN'' \<and> item \<noteq> ''apg''")
    case False
    with Cons show ?thesis by auto
  next
    case True
    show ?thesis
    proof (cases "shutil_move d (loc_join data_source item) (loc_join data_dest item)")
      case (Inl e)
      with True show ?thesis by simp
    next
      case (Inr d1)
      from Cons.prems True
      have "fst (loc_join data_source item) = k \<longrightarrow>
          \<not> prefix (snd (loc_join data_source item)) q \<and> \<not> prefix q (snd (loc_join data_source item))"
        and "fst (loc_join data_dest item) = k \<longrightarrow>
          \<not> prefix (snd (loc_join data_dest item)) q \<and> \<not> prefix q (snd (loc_join data_dest item))"
        by (simp_all add: loc_join_def)
      with Inr have "stat d1 (k, q) = stat d (k, q)" by (rule stat_shutil_move_other)
      moreover from Cons.IH [of d1] Cons.prems
      have "stat (snd (move_items d1 data_source data_dest items)) (k, q) = stat d1 (k, q)"
        by simp
      ultimately show ?thesis using True Inr by simp
    qed
  qed
qed

lemma loc_join_simps [simp]:
  "loc_join (k, p) x = (k, p @ [x])"
  by (simp add: loc_join_def)

text \<open>The shape of a run of the restructuring step.\<close>

lemma restructure_cases:
  assumes "temp_dir st = Some tmp"
  obtains (exists) e where "os_makedirs (disk st) (tmp, [''apg'']) = Inl e"
      "restructure st = (Inl e, st)"
    | (nodata) d1 e where "os_makedirs (disk st) (tmp, [''apg'']) = Inr d1"
      "os_makedirs d1 (tmp, [''apg'', ''data'']) = Inl e"
      "restructure st = (Inl e, st\<lparr>disk := d1\<rparr>)"
    | (nolist) d1 d2 e where "os_makedirs (disk st) (tmp, [''apg'']) = Inr d1"
      "os_makedirs d1 (tmp, [''apg'', ''data'']) = Inr d2"
      "os_listdir d2 (tmp, []) = Inl e"
      "restructure st = (Inl e, st\<lparr>disk := d2\<rparr>)"
    | (moved) d1 d2 items where "os_makedirs (disk st) (tmp, [''apg'']) = Inr d1"
      "os_makedirs d1 (tmp, [''apg'', ''data'']) = Inr d2"
      "os_listdir d2 (tmp, []) = Inr items"
      "restructure st =
         (fst (move_items d2 (tmp, []) (tmp, [''apg'', ''data'']) items),
          st\<lparr>disk := snd (move_items d2 (tmp, []) (tmp, [''apg'', ''data'']) items)\<rparr>)"
proof (cases "os_makedirs (disk st) (tmp, [''apg''])")
  case (Inl e)
  with assms exists show ?thesis by (simp add: restructure_def Let_def)
next
  case d1: (Inr d1)
  show ?thesis
  proof (cases "os_makedirs d1 (tmp, [''apg'', ''data''])")
    case (Inl e)
    with assms d1 nodata show ?thesis by (simp add: restructure_def Let_def)
  next
    case d2: (Inr d2)
    show ?thesis
    proof (cases "os_listdir d2 (tmp, [])")
      case (Inl e)
      with assms d1 d2 nolist show ?thesis by (simp add: restructure_def Let_def)
    next
      case (Inr items)
      with assms d1 d2 moved show ?thesis
        by (simp add: restructure_def Let_def case_prod_beta)
    qed
  qed
qed

lemma restructure_keeps_control:
  assumes "temp_dir st = Some tmp"
  shows "stat (disk (snd (restructure st))) (tmp, ''DEBIAN'' # r) = stat (disk st) (tmp, ''DEBIAN'' # r)"
proof -
  have a: "stat d' (tmp, ''DEBIAN'' # r) = stat d (tmp, ''DEBIAN'' # r)"
    if "os_makedirs d (tmp, ''apg'' # p) = Inr d'" for d d' p
    using that by (rule stat_os_makedirs_other) simp
  have m: "stat (snd (move_items d (tmp, []) (tmp, [''apg'', ''data'']) items)) (tmp, ''DEBIAN'' # r) =
      stat d (tmp, ''DEBIAN'' # r)" for d items
    by (rule stat_move_items_other) simp
  from assms show ?thesis
    by (cases st tmp rule: restructure_cases) (simp_all add: a m)
qed

lemma restructure_excludes:
  assumes "temp_dir st = Some tmp" and "fst (restructure st) = Inr v"
    and "x = ''DEBIAN'' \<or> x = ''apg''"
  shows "stat (disk (snd (restructure st))) (tmp, ''apg'' # ''data'' # x # r) = None"
  using assms(1)
proof (cases st tmp rule: restructure_cases)
  case (moved d1 d2 items)
  from stat_os_makedirs_same [OF moved(2)] have "stat d2 (tmp, [''apg'', ''data'']) = Some (Dir [])" .
  from stat_append [OF this, of "x # r"] have "stat d2 (tmp, ''apg'' # ''data'' # x # r) = None"
    by simp
  moreover have "stat (snd (move_items d2 (tmp, []) (tmp, [''apg'', ''data'']) items))
      (tmp, ''apg'' # ''data'' # x # r) = stat d2 (tmp, ''apg'' # ''data'' # x # r)"
    using assms(3) by (intro stat_move_items_other) auto
  ultimately show ?thesis using moved by simp
qed (use assms(2) in simp_all)

lemma restructure_apg_taken:
  assumes "temp_dir st = Some tmp" and "stat (disk st) (tmp, [''apg'']) \<noteq> None"
  shows "restructure st = (Inl (os_error EEXIST (path_join tmp ''apg'')), st)"
  using assms by (simp add: restructure_def os_makedirs_def loc_str_def)

lemma put_prefix_dir:
  "put t p n = Some t' \<Longrightarrow> strict_prefix q p \<Longrightarrow> \<exists>es. node_at t' q = Some (Dir es)"
proof (induction t p n arbitrary: t' q rule: put.induct)
  case (3 es x p n)
  show ?case
  proof (cases q)
    case Nil
    from "3.prems"(1) put_is_dir have "is_dir t'" by blast
    with Nil show ?thesis by (cases t') auto
  next
    case (Cons y q')
    with "3.prems"(2) have y: "y = x" and sp: "strict_prefix q' p" by auto
    then have "p \<noteq> []" by auto
    with "3.prems"(1) obtain c c' where c: "map_of es x = Some c" and c': "put c p n = Some c'"
      and t': "t' = Dir (AList.update x c' es)"
      by (auto split: option.splits)
    from "3.IH" [OF \<open>p \<noteq> []\<close> c c' sp] y Cons t' show ?thesis by (simp add: update_conv')
  qed
qed simp_all

lemma bind_node_prefix_dir:
  assumes "bind_node d (k, p @ x # r) n = Some d'"
  shows "\<exists>es. stat d' (k, p) = Some (Dir es)"
proof -
  from assms obtain t t' where "put t (p @ x # r) n = Some t'" "d' = d(k \<mapsto> t')"
    by (auto simp: bind_node_def split: option.splits)
  moreover have "strict_prefix p (p @ x # r)" by (simp add: strict_prefix_def)
  ultimately show ?thesis using put_prefix_dir by (fastforce simp: stat_def)
qed

lemma shutil_move_dest_dir:
  assumes "shutil_move d src (k, p @ [x]) = Inr d'"
  shows "\<exists>es. stat d' (k, p) = Some (Dir es)"
proof -
  from shutil_move_Inr [OF assms] consider "os_rename d src (k, p @ [x]) = Inr d'"
    | "os_rename d src (k, p @ [x, loc_basename src]) = Inr d'"
    by auto
  then obtain n d1 r where "bind_node d1 (k, p @ x # r) n = Some d'"
    by cases (auto simp: os_rename_def split: option.splits if_splits)
  then show ?thesis by (rule bind_node_prefix_dir)
qed

lemma move_items_dest_dir:
  "\<exists>es. stat d (k, p) = Some (Dir es) \<Longrightarrow>
   \<exists>es. stat (snd (move_items d data_source (k, p) items)) (k, p) = Some (Dir es)"
proof (induction items arbitrary: d)
  case Nil
  then show ?case by simp
next
  case (Cons item items)
  show ?case
  proof (cases "item \<noteq> ''DEBIAN'' \<and> item \<noteq> ''apg''")
    case False
    with Cons show ?thesis by auto
  next
    case True
    show ?thesis
    proof (cases "shutil_move d (loc_join data_source item) (k, p @ [item])")
      case (Inl e)
      with True Cons.prems show ?thesis by simp
    next
      case (Inr d1)
      from shutil_move_dest_dir [OF Inr] Cons.IH [of d1] True Inr show ?thesis by simp
    qed
  qed
qed

lemma dump_to_Inr:
  assumes "dump_to env name produce st = (Inr v, st')"
    and "\<And>s. disk (snd (produce s)) = disk s"
  obtains d1 val where "write_file (disk st) name [] = Inr d1"
    "fst (produce (st\<lparr>disk := d1\<rparr>)) = Inr val"
    "write_file d1 name (json_dump env val) = Inr (disk st')"
    "v = PyNone"
proof (cases "write_file (disk st) name []")
  case (Inl e)
  with assms(1) show ?thesis by (simp add: dump_to_def)
next
  case (Inr d1)
  obtain r st1 where p: "produce (st\<lparr>disk := d1\<rparr>) = (r, st1)"
    by (cases "produce (st\<lparr>disk := d1\<rparr>)")
  with assms(2) [of "st\<lparr>disk := d1\<rparr>"] have d: "disk st1 = d1" by simp
  from assms(1) Inr p obtain val where r: "r = Inr val" by (cases r) (auto simp: dump_to_def)
  from assms(1) Inr p r obtain d2 where "write_file (disk st1) name (json_dump env val) = Inr d2"
    and "st' = st1\<lparr>disk := d2\<rparr>" and "v = PyNone"
    by (auto simp: dump_to_def split: sum.splits)
  with that [of d1 val] Inr p r d show ?thesis by simp
qed

lemma write_archive_Inr:
  assumes "write_archive env output_file (tmp, p) st = (Inr v, st')"
    and "dir_at_root (disk st) tmp"
  obtains root where "output_file \<noteq> tmp" "stat (disk st) (tmp, p) = Some root"
    "disk st' = (disk st)(output_file \<mapsto> File (tar_xz env (tar_add [] root)))"
    "v = PyNone"
proof -
  from assms(1) obtain d1 where w1: "write_file (disk st) (output_file, []) [] = Inr d1"
    by (cases "write_file (disk st) (output_file, []) []") (auto simp: write_archive_def)
  from write_file_root_other [OF w1 assms(2)]
  have ne: "output_file \<noteq> tmp" and d1: "d1 = (disk st)(output_file \<mapsto> File [])" by simp_all
  from assms(1) w1 obtain root where root: "stat d1 (tmp, p) = Some root"
    by (cases "stat d1 (tmp, p)") (auto simp: write_archive_def)
  from assms(1) w1 root obtain d2
    where w2: "write_file d1 (output_file, []) (tar_xz env (tar_add [] root)) = Inr d2"
      and st': "st' = st\<lparr>disk := d2\<rparr>" and v: "v = PyNone"
    by (auto simp: write_archive_def split: sum.splits)
  from w2 have d2: "d2 = d1(output_file \<mapsto> File (tar_xz env (tar_add [] root)))"
    by (auto simp: write_file_def bind_node_def split: option.splits node.splits)
  from root ne d1 have r: "stat (disk st) (tmp, p) = Some root" by (simp add: stat_def)
  from d1 d2 st' have "disk st' = (disk st)(output_file \<mapsto> File (tar_xz env (tar_add [] root)))"
    by simp
  with ne r v that show ?thesis by blast
qed

lemma create_apg_Inr:
  assumes "create_apg env output_file st = (Inr v, st')" and "temp_dir st = Some tmp"
  obtains st1 st2 st3 v1 v2 v3 where
    "restructure (log ''Creating APG structure...'' ''process'' st) = (Inr v1, st1)"
    "dump_to env (tmp, [''apg'', ''metadata.json'']) (generate_metadata env) st1 = (Inr v2, st2)"
    "dump_to env (tmp, [''apg'', ''checksums.json''])
       (calculate_checksums env (tmp, [''apg'', ''data''])) st2 = (Inr v3, st3)"
    "write_archive env output_file (tmp, [''apg''])
       (update_progress ''Creating APG archive'' st3) = (Inr v, st')"
proof -
  let ?st0 = "log ''Creating APG structure...'' ''process'' st"
  obtain r1 st1 where r: "restructure ?st0 = (r1, st1)" by (cases "restructure ?st0")
  from restructure_keeps(1) [of ?st0] r assms(2) have t1: "temp_dir st1 = Some tmp" by simp
  from assms(1) r obtain v1 where r1: "r1 = Inr v1" by (cases r1) (auto simp: create_apg_def)
  let ?m = "dump_to env (tmp, [''apg'', ''metadata.json'']) (generate_metadata env) st1"
  obtain r2 st2 where m: "?m = (r2, st2)" by (cases ?m)
  from assms(1) r r1 t1 m obtain v2 where r2: "r2 = Inr v2"
    by (cases r2) (auto simp: create_apg_def Let_def)
  let ?c = "dump_to env (tmp, [''apg'', ''checksums.json''])
       (calculate_checksums env (tmp, [''apg'', ''data''])) st2"
  obtain r3 st3 where c: "?c = (r3, st3)" by (cases ?c)
  from assms(1) r r1 t1 m r2 c obtain v3 where r3: "r3 = Inr v3"
    by (cases r3) (auto simp: create_apg_def Let_def)
  from assms(1) r r1 t1 m r2 c r3
  have "write_archive env output_file (tmp, [''apg''])
       (update_progress ''Creating APG archive'' st3) = (Inr v, st')"
    by (simp add: create_apg_def Let_def)
  with r r1 m r2 c r3 that show ?thesis by blast
qed

lemma restructure_success:
  assumes "temp_dir st = Some tmp" and "restructure st = (Inr v, st1)"
  shows "dir_at_root (disk st1) tmp \<and>
    (\<exists>ds. stat (disk st1) (tmp, [''apg'', ''data'']) = Some (Dir ds))"
  using assms(1)
proof (cases st tmp rule: restructure_cases)
  case (moved d1 d2 items)
  from os_makedirs_root_dir [OF moved(1)] have "dir_at_root d1 tmp" .
  with moved(2) have "dir_at_root d2 tmp" by (rule os_makedirs_keeps_dir)
  from move_items_keeps_dir [OF this, of "(tmp, [''apg'', ''data''])" "(tmp, [''apg''])" "''data''"
      "(tmp, [])" items] moved(4) assms(2)
  have 1: "dir_at_root (disk st1) tmp" by simp
  from stat_os_makedirs_same [OF moved(2)]
  have "\<exists>ds. stat d2 (tmp, [''apg'', ''data'']) = Some (Dir ds)" by simp
  from move_items_dest_dir [OF this, of "(tmp, [])" items] moved(4) assms(2)
  have "\<exists>ds. stat (disk st1) (tmp, [''apg'', ''data'']) = Some (Dir ds)" by simp
  with 1 show ?thesis ..
qed (use assms(2) in simp_all)

lemma dump_to_success:
  assumes "dump_to env (k, p) produce st = (Inr v, st')"
    and "\<And>s. disk (snd (produce s)) = disk s"
  shows "\<exists>val s. fst (produce s) = Inr val \<and>
           stat (disk st') (k, p) = Some (File (json_dump env val))"
    and "\<not> prefix p q \<Longrightarrow> \<not> prefix q p \<Longrightarrow> stat (disk st') (k, q) = stat (disk st) (k, q)"
    and "dir_at_root (disk st) k' \<Longrightarrow> dir_at_root (disk st') k'"
proof -
  from assms obtain d1 val where w1: "write_file (disk st) (k, p) [] = Inr d1"
    and pr: "fst (produce (st\<lparr>disk := d1\<rparr>)) = Inr val"
    and w2: "write_file d1 (k, p) (json_dump env val) = Inr (disk st')"
    by (rule dump_to_Inr)
  from stat_write_file_same [OF w2] pr
  show "\<exists>val s. fst (produce s) = Inr val \<and>
           stat (disk st') (k, p) = Some (File (json_dump env val))" by blast
  show "stat (disk st') (k, q) = stat (disk st) (k, q)" if "\<not> prefix p q" "\<not> prefix q p"
    using stat_write_file_other [OF w1, of k q] stat_write_file_other [OF w2, of k q] that
    by simp
  show "dir_at_root (disk st') k'" if "dir_at_root (disk st) k'"
    using write_file_keeps_dir [OF w2 write_file_keeps_dir [OF w1 that]] .
qed

lemma create_apg_success:
  assumes "create_apg env output_file st = (Inr v, st')" and "temp_dir st = Some tmp"
  shows "v = PyNone" and "output_file \<noteq> tmp" and "dir_at_root (disk st') tmp"
    and "\<exists>root. stat (disk st') (tmp, [''apg'']) = Some root \<and>
           disk st' output_file = Some (File (tar_xz env (tar_add [] root)))"
    and "\<exists>ds. stat (disk st') (tmp, [''apg'', ''data'']) = Some (Dir ds)"
    and "\<exists>b. stat (disk st') (tmp, [''apg'', ''metadata.json'']) = Some (File b)"
    and "\<exists>b. stat (disk st') (tmp, [''apg'', ''checksums.json'']) = Some (File b)"
    and "stat (disk st') (tmp, ''DEBIAN'' # r) = stat (disk st) (tmp, ''DEBIAN'' # r)"
    and "x = ''DEBIAN'' \<or> x = ''apg'' \<Longrightarrow>
         stat (disk st') (tmp, ''apg'' # ''data'' # x # r) = None"
proof -
  let ?st0 = "log ''Creating APG structure...'' ''process'' st"
  from assms obtain st1 st2 st3 v1 v2 v3 where
    r: "restructure ?st0 = (Inr v1, st1)" and
    m: "dump_to env (tmp, [''apg'', ''metadata.json'']) (generate_metadata env) st1 = (Inr v2, st2)" and
    c: "dump_to env (tmp, [''apg'', ''checksums.json''])
       (calculate_checksums env (tmp, [''apg'', ''data''])) st2 = (Inr v3, st3)" and
    w: "write_archive env output_file (tmp, [''apg''])
       (update_progress ''Creating APG archive'' st3) = (Inr v, st')"
    by (rule create_apg_Inr)
  have t0: "temp_dir ?st0 = Some tmp" using assms(2) by simp
  note gm = generate_metadata_state(1) [of env]
  note cc = calculate_checksums_state(1) [of env "(tmp, [''apg'', ''data''])"]
  note M = dump_to_success [OF m gm]
  note C = dump_to_success [OF c cc]
  from restructure_success [OF t0 r]
  have k1: "dir_at_root (disk st1) tmp"
    and data1: "\<exists>ds. stat (disk st1) (tmp, [''apg'', ''data'']) = Some (Dir ds)" by blast+
  from M(3) [OF k1] have k2: "dir_at_root (disk st2) tmp" .
  from C(3) [OF k2] have k3: "dir_at_root (disk st3) tmp" .
  then have "dir_at_root (disk (update_progress ''Creating APG archive'' st3)) tmp" by simp
  from write_archive_Inr [OF w this] obtain root where ne: "output_file \<noteq> tmp"
    and root: "stat (disk st3) (tmp, [''apg'']) = Some root"
    and d': "disk st' = (disk st3)(output_file \<mapsto> File (tar_xz env (tar_add [] root)))"
    and v: "v = PyNone" by auto
  have same: "stat (disk st') (tmp, q) = stat (disk st3) (tmp, q)" for q
    using ne d' by (simp add: stat_def)
  show "v = PyNone" by (rule v)
  show "output_file \<noteq> tmp" by (rule ne)
  show "dir_at_root (disk st') tmp" using k3 ne d' by simp
  show "\<exists>root. stat (disk st') (tmp, [''apg'']) = Some root \<and>
           disk st' output_file = Some (File (tar_xz env (tar_add [] root)))"
    using root d' same by simp
  have "stat (disk st3) (tmp, [''apg'', ''data'']) = stat (disk st1) (tmp, [''apg'', ''data''])"
    using M(2) [of "[''apg'', ''data'']"] C(2) [of "[''apg'', ''data'']"] by simp
  with data1 same show "\<exists>ds. stat (disk st') (tmp, [''apg'', ''data'']) = Some (Dir ds)"
    by simp
  from M(1) obtain b where "stat (disk st2) (tmp, [''apg'', ''metadata.json'']) = Some (File b)"
    by blast
  moreover have "stat (disk st3) (tmp, [''apg'', ''metadata.json'']) =
      stat (disk st2) (tmp, [''apg'', ''metadata.json''])"
    using C(2) [of "[''apg'', ''metadata.json'']"] by simp
  ultimately show "\<exists>b. stat (disk st') (tmp, [''apg'', ''metadata.json'']) = Some (File b)"
    using same by simp
  from C(1) same show "\<exists>b. stat (disk st') (tmp, [''apg'', ''checksums.json'']) = Some (File b)"
    by auto
  have "stat (disk st3) (tmp, ''DEBIAN'' # r) = stat (disk st1) (tmp, ''DEBIAN'' # r)"
    using M(2) [of "''DEBIAN'' # r"] C(2) [of "''DEBIAN'' # r"] by simp
  moreover from restructure_keeps_control [OF t0, of r] r
  have "stat (disk st1) (tmp, ''DEBIAN'' # r) = stat (disk st) (tmp, ''DEBIAN'' # r)" by simp
  ultimately show "stat (disk st') (tmp, ''DEBIAN'' # r) = stat (disk st) (tmp, ''DEBIAN'' # r)"
    using same by simp
  show "stat (disk st') (tmp, ''apg'' # ''data'' # x # r) = None" if x: "x = ''DEBIAN'' \<or> x = ''apg''"
  proof -
    from restructure_excludes [OF t0 _ x, of v1 r] r
    have "stat (disk st1) (tmp, ''apg'' # ''data'' # x # r) = None" by simp
    moreover have "stat (disk st3) (tmp, ''apg'' # ''data'' # x # r) =
        stat (disk st1) (tmp, ''apg'' # ''data'' # x # r)"
      using M(2) [of "''apg'' # ''data'' # x # r"] C(2) [of "''apg'' # ''data'' # x # r"] by simp
    ultimately show ?thesis using same by simp
  qed
qed

subsection \<open>The archive\<close>

lemma tar_add_head: "(arcname, member_of t) \<in> set (tar_add arcname t)"
  by (cases t) simp_all

lemma tar_add_contains:
  "node_at t p = Some n \<Longrightarrow> (foldl path_join arcname p, member_of n) \<in> set (tar_add arcname t)"
proof (induction t p arbitrary: arcname rule: node_at.induct)
  case (1 n')
  then show ?case by (simp add: tar_add_head)
next
  case (2 b x p)
  then show ?case by simp
next
  case (3 es x p)
  from "3.prems" obtain c where c: "map_of es x = Some c" and n: "node_at c p = Some n"
    by (auto split: option.splits)
  from c have e: "(x, c) \<in> set es" by (rule map_of_SomeD)
  from "3.IH" [OF c n, of "path_join arcname x"]
  have "(foldl path_join (path_join arcname x) p, member_of n) \<in> set (tar_add (path_join arcname x) c)" .
  with e show ?case by force
qed

lemma rel_path_snoc: "p \<noteq> [] \<Longrightarrow> rel_path (p @ [x]) = rel_path p @ CHR ''/'' # x"
  by (induction p rule: rel_path.induct) simp_all

lemma rel_path_last:
  "p \<noteq> [] \<Longrightarrow> \<forall>x \<in> set p. valid_name x \<Longrightarrow> rel_path p \<noteq> [] \<and> last (rel_path p) \<noteq> CHR ''/''"
proof (induction p rule: rel_path.induct)
  case 1
  then show ?case by simp
next
  case (2 x)
  then have "x \<noteq> []" "CHR ''/'' \<notin> set x" by (simp_all add: valid_name_def)
  then show ?case using last_in_set by fastforce
next
  case (3 x y p)
  then show ?case by simp
qed

lemma foldl_path_join_rel_path:
  "p \<noteq> [] \<Longrightarrow> \<forall>x \<in> set p. valid_name x \<Longrightarrow> foldl path_join [] p = rel_path p"
proof (induction p rule: rev_induct)
  case Nil
  then show ?case by simp
next
  case (snoc x p)
  from snoc.prems have vx: "x \<noteq> []" "hd x \<noteq> CHR ''/''"
    by (auto simp: valid_name_def dest: hd_in_set)
  show ?case
  proof (cases "p = []")
    case True
    have "path_join [] x = x" by (simp add: path_join_def)
    with True show ?thesis by simp
  next
    case False
    with snoc have f: "foldl path_join [] p = rel_path p" by simp
    from rel_path_last [OF False] snoc.prems
    have "rel_path p \<noteq> []" "last (rel_path p) \<noteq> CHR ''/''" by simp_all
    then have "path_join (rel_path p) x = rel_path p @ CHR ''/'' # x"
      using vx by (simp add: path_join_def)
    moreover have "foldl path_join [] (p @ [x]) = path_join (rel_path p) x"
      using f by simp
    ultimately show ?thesis using rel_path_snoc [OF False, of x] by simp
  qed
qed

subsection \<open>The control subtree after restructuring\<close>




subsection \<open>The size of the archive\<close>

text \<open>
  C8, as stated, on the sample package: \<open>create_apg\<close> succeeds, the archive has 72
  bytes, and what \<open>create_apg\<close> returns is \<open>None\<close>, not 72.
\<close>

theorem create_apg_returns_none_counterexample:
  "fst (create_apg sample_env ''out.apg'' extracted_state) = Inr PyNone \<and>
   os_path_getsize sample_env (disk (snd (create_apg sample_env ''out.apg'' extracted_state)))
     (''out.apg'', []) = Inr 72 \<and>
   fst (create_apg sample_env ''out.apg'' extracted_state) \<noteq> Inr (PyInt 72)"
  by code_simp

lemma extract_deb_Inr:
  assumes "extract_deb env input_file st = (Inr v, st')"
  shows "\<exists>tmp. temp_dir st' = Some tmp \<and> tmp \<noteq> []"
proof -
  from assms obtain tmp d where m: "mkdtemp env (disk st) = Inr (tmp, d)"
    by (cases "mkdtemp env (disk st)") (auto simp: extract_deb_def Let_def)
  from extract_deb_outcome [OF m, of input_file] assms mkdtemp_Inr [OF m]
  show ?thesis by simp
qed

lemma cleanup_other:
  "temp_dir st = Some tmp \<Longrightarrow> k \<noteq> tmp \<Longrightarrow> disk (snd (cleanup st)) k = disk st k"
  and tty_cleanup: "tty (snd (cleanup st)) = tty st"
  by (auto simp: cleanup_def shutil_rmtree_def unlink_def split: option.splits node.splits)

lemma convert_try_Inr:
  assumes "convert_try env input_file output_file st = (Inr v, st')"
  shows "v = PyNone \<and>
    (\<exists>tmp bytes. temp_dir st' = Some tmp \<and> output_file \<noteq> tmp \<and>
       disk st' output_file = Some (File bytes) \<and>
       last (tty st') = LogLine ''success''
         (CHR 0x0A # ''Successfully created '' @ output_file @ '' ('' @
            format_mb env (length bytes) @ '' MB)''))"
proof -
  let ?st0 = "st\<lparr>tty := tty st @ [Print (CHR 0x0A # ''Starting conversion process:'')]\<rparr>"
  obtain r1 st1 where a: "validate_deb env input_file ?st0 = (r1, st1)"
    by (cases "validate_deb env input_file ?st0")
  with assms obtain v1 where r1: "r1 = Inr v1" by (cases r1) (auto simp: convert_try_def)
  obtain r2 st2 where x: "extract_deb env input_file st1 = (r2, st2)"
    by (cases "extract_deb env input_file st1")
  with assms a r1 obtain v2 where r2: "r2 = Inr v2" by (cases r2) (auto simp: convert_try_def)
  from extract_deb_Inr [OF x [unfolded r2]] obtain tmp where t2: "temp_dir st2 = Some tmp" by blast
  obtain r3 st3 where c: "create_apg env output_file st2 = (r3, st3)"
    by (cases "create_apg env output_file st2")
  with assms a r1 x r2 obtain v3 where r3: "r3 = Inr v3" by (cases r3) (auto simp: convert_try_def)
  note s = create_apg_success [OF c [unfolded r3] t2]
  from s(4) obtain bytes where b: "disk st3 output_file = Some (File bytes)" by blast
  then have g: "os_path_getsize env (disk st3) (output_file, []) = Inr (length bytes)"
    by (simp add: os_path_getsize_def)
  from create_apg_keeps(1) [of env output_file st2] c t2 have t3: "temp_dir st3 = Some tmp" by simp
  from assms a r1 x r2 c r3 g
  have "v = PyNone" and "st' = log (CHR 0x0A # ''Successfully created '' @ output_file @ '' ('' @
            format_mb env (length bytes) @ '' MB)'') ''success'' st3"
    by (simp_all add: convert_try_def)
  with b t3 s(2) show ?thesis by (simp add: log_def)
qed

text \<open>
  C8, amended. \<open>create_apg\<close> returns \<open>None\<close>; the archive it wrote is at the output
  path, where \<open>os.path.getsize\<close> gives its length. It is \<open>convert\<close> that asks for that
  size: when \<open>convert\<close> returns, it returns \<open>None\<close>, the archive is at the output path,
  and the last line logged is the success line with that byte size formatted in MB.
\<close>

theorem size_is_read_by_convert:
  "(\<forall>v st' tmp. create_apg env output_file st = (Inr v, st') \<and> temp_dir st = Some tmp \<longrightarrow>
      v = PyNone \<and>
      (\<exists>bytes. disk st' output_file = Some (File bytes) \<and>
         os_path_getsize env (disk st') (output_file, []) = Inr (length bytes))) \<and>
   (\<forall>v. fst (convert env input_file output_file st) = Inr v \<longrightarrow>
      v = PyNone \<and>
      (\<exists>bytes. disk (snd (convert env input_file output_file st)) output_file = Some (File bytes) \<and>
         last (tty (snd (convert env input_file output_file st))) =
           LogLine ''success''
             (CHR 0x0A # ''Successfully created '' @ output_file @ '' ('' @
                format_mb env (length bytes) @ '' MB)'')))"
proof (intro conjI allI impI)
  fix v st' tmp
  assume a: "create_apg env output_file st = (Inr v, st') \<and> temp_dir st = Some tmp"
  then have c: "create_apg env output_file st = (Inr v, st')" and t: "temp_dir st = Some tmp"
    by simp_all
  from create_apg_success(1) [OF c t] show "v = PyNone" .
  from create_apg_success(4) [OF c t]
  show "\<exists>bytes. disk st' output_file = Some (File bytes) \<and>
         os_path_getsize env (disk st') (output_file, []) = Inr (length bytes)"
    by (auto simp: os_path_getsize_def)
next
  fix v assume a: "fst (convert env input_file output_file st) = Inr v"
  let ?t = "convert_try env input_file output_file (print_banner st)"
  obtain r st1 where t: "?t = (r, st1)" by (cases ?t)
  from a t have r: "r = Inr v" and s: "snd (convert env input_file output_file st) = snd (cleanup st1)"
    by (auto simp: convert_def Let_def split: prod.splits sum.splits)
  from convert_try_Inr [OF t [unfolded r]] obtain tmp bytes
    where v: "v = PyNone" and tmp: "temp_dir st1 = Some tmp" and ne: "output_file \<noteq> tmp"
      and b: "disk st1 output_file = Some (File bytes)"
      and l: "last (tty st1) = LogLine ''success''
         (CHR 0x0A # ''Successfully created '' @ output_file @ '' ('' @
            format_mb env (length bytes) @ '' MB)'')"
    by blast
  show "v = PyNone" by (rule v)
  from cleanup_other [OF tmp ne] b l
  show "\<exists>bytes. disk (snd (convert env input_file output_file st)) output_file = Some (File bytes) \<and>
         last (tty (snd (convert env input_file output_file st))) =
           LogLine ''success''
             (CHR 0x0A # ''Successfully created '' @ output_file @ '' ('' @
                format_mb env (length bytes) @ '' MB)'')"
    unfolding s by (simp add: tty_cleanup)
qed

theorem size_is_read_by_convert_witness:
  "create_apg sample_env ''out.apg'' extracted_state =
     (Inr PyNone, snd (create_apg sample_env ''out.apg'' extracted_state)) \<and>
   temp_dir extracted_state = Some ''/tmp/tmpa'' \<and>
   os_path_getsize sample_env (disk (snd (create_apg sample_env ''out.apg'' extracted_state)))
     (''out.apg'', []) = Inr 72 \<and>
   fst (convert sample_env ''pkg.deb'' ''out.apg'' (new_converter False sample_disk)) = Inr PyNone \<and>
   last (tty (snd (convert sample_env ''pkg.deb'' ''out.apg'' (new_converter False sample_disk)))) =
     LogLine ''success'' (CHR 0x0A # ''Successfully created out.apg (0.0 MB)'')"
proof -
  have t: "temp_dir extracted_state = Some ''/tmp/tmpa''"
    by (simp add: extracted_state_def)
  have "fst (create_apg sample_env ''out.apg'' extracted_state) = Inr PyNone"
    by code_simp
  then have c: "create_apg sample_env ''out.apg'' extracted_state =
      (Inr PyNone, snd (create_apg sample_env ''out.apg'' extracted_state))"
    by (metis prod.collapse)
  have g: "os_path_getsize sample_env (disk (snd (create_apg sample_env ''out.apg''
      extracted_state))) (''out.apg'', []) = Inr 72"
    by code_simp
  have r: "fst (convert sample_env ''pkg.deb'' ''out.apg'' (new_converter False sample_disk)) =
      Inr PyNone"
    by code_simp
  note w = size_is_read_by_convert [where env = sample_env and input_file = "''pkg.deb''"
      and output_file = "''out.apg''" and st = "new_converter False sample_disk"]
  from w [THEN conjunct2, rule_format, OF r]
  have "last (tty (snd (convert sample_env ''pkg.deb'' ''out.apg''
      (new_converter False sample_disk)))) =
     LogLine ''success'' (CHR 0x0A # ''Successfully created out.apg (0.0 MB)'')"
    by (auto simp: sample_env_def)
  with c t g r show ?thesis by (intro conjI)
qed

subsection \<open>Well-formed file systems\<close>

text \<open>
  Every operation of the restructuring step keeps the file system well formed, given
  that the names it introduces are valid.
\<close>

lemma set_update_subset: "set (AList.update x c es) \<subseteq> insert (x, c) (set es)"
  by (induction es) auto

lemma set_delete_subset: "set (AList.delete x es) \<subseteq> set es"
  by (induction es) auto

lemma wf_Dir_update:
  assumes "wf_node (Dir es)" and "valid_name x" and "wf_node c"
  shows "wf_node (Dir (AList.update x c es))"
  using assms set_update_subset [of x c es]
  by (auto simp: distinct_update)

lemma wf_Dir_delete:
  assumes "wf_node (Dir es)"
  shows "wf_node (Dir (AList.delete x es))"
  using assms set_delete_subset [of x es]
  by (auto simp: distinct_delete)

lemma wf_child: "wf_node (Dir es) \<Longrightarrow> map_of es x = Some c \<Longrightarrow> valid_name x \<and> wf_node c"
  by (auto dest!: map_of_SomeD)

lemma wf_put:
  "put t p n = Some t' \<Longrightarrow> wf_node t \<Longrightarrow> wf_node n \<Longrightarrow> \<forall>x \<in> set p. valid_name x \<Longrightarrow> wf_node t'"
proof (induction t p n arbitrary: t' rule: put.induct)
  case (3 es x p n)
  show ?case
  proof (cases "p = []")
    case True
    with "3.prems" wf_Dir_update [of es x n] show ?thesis by simp
  next
    case False
    with "3.prems"(1) obtain c c' where c: "map_of es x = Some c" and c': "put c p n = Some c'"
      and t': "t' = Dir (AList.update x c' es)"
      by (auto split: option.splits)
    from wf_child [OF "3.prems"(2) c] have "wf_node c" ..
    with "3.IH" [OF False c c'] "3.prems" have "wf_node c'" by simp
    with "3.prems" t' wf_Dir_update [of es x c'] show ?thesis by simp
  qed
qed simp_all

lemma wf_remove:
  "remove t p = Some t' \<Longrightarrow> wf_node t \<Longrightarrow> wf_node t'"
proof (induction t p arbitrary: t' rule: remove.induct)
  case (3 es x p)
  from "3.prems"(1) obtain c where c: "map_of es x = Some c" by (auto split: option.splits)
  from wf_child [OF "3.prems"(2) c] have vx: "valid_name x" and wc: "wf_node c" by simp_all
  show ?case
  proof (cases "p = []")
    case True
    with "3.prems" c wf_Dir_delete [of es x] show ?thesis by simp
  next
    case False
    with "3.prems"(1) c obtain c' where c': "remove c p = Some c'"
      and t': "t' = Dir (AList.update x c' es)"
      by (auto split: option.splits)
    from "3.IH" [OF c False c' wc] have "wf_node c'" .
    with "3.prems"(2) vx t' wf_Dir_update [of es x c'] show ?thesis by simp
  qed
qed simp_all

lemma wf_makedirs_at:
  "makedirs_at t p = Some t' \<Longrightarrow> wf_node t \<Longrightarrow> \<forall>x \<in> set p. valid_name x \<Longrightarrow> wf_node t'"
proof (induction t p arbitrary: t' rule: makedirs_at.induct)
  case (3 es x p)
  let ?c = "case map_of es x of None \<Rightarrow> Dir [] | Some c \<Rightarrow> c"
  from "3.prems"(1) obtain c' where c': "makedirs_at ?c p = Some c'"
    and t': "t' = Dir (AList.update x c' es)"
    by (auto split: option.splits)
  have "wf_node ?c" using wf_child [OF "3.prems"(2)] by (auto split: option.splits)
  from "3.IH" [OF c' this] "3.prems"(3) have "wf_node c'" by simp
  with "3.prems" t' wf_Dir_update [of es x c'] show ?case by simp
qed simp_all

lemma wf_disk_upd: "wf_disk d \<Longrightarrow> wf_node t \<Longrightarrow> wf_disk (d(k \<mapsto> t))"
  by (auto simp: wf_disk_def)

lemma wf_disk_del: "wf_disk d \<Longrightarrow> wf_disk (d(k := None))"
  by (auto simp: wf_disk_def)

lemma wf_diskD: "wf_disk d \<Longrightarrow> d k = Some t \<Longrightarrow> wf_node t"
  by (auto simp: wf_disk_def)

lemma wf_stat: "wf_disk d \<Longrightarrow> stat d l = Some n \<Longrightarrow> wf_node n"
  by (auto simp: stat_def split: option.splits dest: wf_diskD wf_node_at)

lemma wf_bind_node:
  assumes "bind_node d l n = Some d'" and "wf_disk d" and "wf_node n"
    and "\<forall>x \<in> set (snd l). valid_name x"
  shows "wf_disk d'"
proof (cases "snd l = []")
  case True
  with assms show ?thesis by (auto simp: bind_node_def intro: wf_disk_upd)
next
  case False
  with assms(1) obtain t t' where t: "d (fst l) = Some t" and p: "put t (snd l) n = Some t'"
    and d': "d' = d(fst l \<mapsto> t')"
    by (auto simp: bind_node_def split: option.splits)
  from wf_put [OF p wf_diskD [OF assms(2) t] assms(3,4)] d' assms(2) show ?thesis
    by (simp add: wf_disk_upd)
qed

lemma wf_unlink:
  assumes "unlink d l = Some d'" and "wf_disk d"
  shows "wf_disk d'"
proof (cases "snd l = []")
  case True
  with assms show ?thesis by (auto simp: unlink_def wf_disk_del split: option.splits)
next
  case False
  with assms(1) obtain t t' where t: "d (fst l) = Some t" and p: "remove t (snd l) = Some t'"
    and d': "d' = d(fst l \<mapsto> t')"
    by (auto simp: unlink_def split: option.splits)
  from wf_remove [OF p wf_diskD [OF assms(2) t]] d' assms(2) show ?thesis
    by (simp add: wf_disk_upd)
qed

lemma wf_os_makedirs:
  assumes "os_makedirs d l = Inr d'" and "wf_disk d" and "\<forall>x \<in> set (snd l). valid_name x"
  shows "wf_disk d'"
proof -
  let ?t = "case d (fst l) of None \<Rightarrow> Dir [] | Some t \<Rightarrow> t"
  from assms(1) obtain t' where m: "makedirs_at ?t (snd l) = Some t'" and d': "d' = d(fst l \<mapsto> t')"
    by (auto simp: os_makedirs_def split: option.splits if_splits)
  have "wf_node ?t" using assms(2) by (auto split: option.splits dest: wf_diskD)
  from wf_makedirs_at [OF m this assms(3)] d' assms(2) show ?thesis by (simp add: wf_disk_upd)
qed

lemma wf_os_rename:
  assumes "os_rename d src dst = Inr d'" and "wf_disk d" and "\<forall>x \<in> set (snd dst). valid_name x"
  shows "wf_disk d'"
proof -
  from assms(1) obtain n d1 where n: "stat d src = Some n" and u: "unlink d src = Some d1"
    and b: "bind_node d1 dst n = Some d'"
    by (auto simp: os_rename_def split: option.splits if_splits)
  from wf_bind_node [OF b wf_unlink [OF u assms(2)] wf_stat [OF assms(2) n] assms(3)]
  show ?thesis .
qed

lemma wf_shutil_move:
  assumes "shutil_move d src dst = Inr d'" and "wf_disk d"
    and "\<forall>x \<in> set (snd dst). valid_name x" and "valid_name (loc_basename src)"
  shows "wf_disk d'"
proof -
  from shutil_move_Inr [OF assms(1)] consider "os_rename d src dst = Inr d'"
    | "os_rename d src (loc_join dst (loc_basename src)) = Inr d'" by blast
  then show ?thesis
  proof cases
    case 1
    from wf_os_rename [OF 1 assms(2,3)] show ?thesis .
  next
    case 2
    from assms(3,4) have "\<forall>x \<in> set (snd (loc_join dst (loc_basename src))). valid_name x"
      by (simp add: loc_join_def)
    from wf_os_rename [OF 2 assms(2) this] show ?thesis .
  qed
qed

lemma wf_write_file:
  assumes "write_file d l c = Inr d'" and "wf_disk d" and "\<forall>x \<in> set (snd l). valid_name x"
  shows "wf_disk d'"
proof -
  from assms(1) have "bind_node d l (File c) = Some d'"
    by (auto simp: write_file_def split: option.splits node.splits)
  from wf_bind_node [OF this assms(2) _ assms(3)] show ?thesis by simp
qed

lemma wf_move_items:
  assumes "wf_disk d" and "\<forall>x \<in> set (snd data_dest). valid_name x"
    and "\<forall>item \<in> set items. valid_name item"
  shows "wf_disk (snd (move_items d (k, []) data_dest items))"
  using assms
proof (induction items arbitrary: d)
  case Nil
  then show ?case by simp
next
  case (Cons item items)
  show ?case
  proof (cases "item \<noteq> ''DEBIAN'' \<and> item \<noteq> ''apg''")
    case False
    with Cons show ?thesis by auto
  next
    case True
    show ?thesis
    proof (cases "shutil_move d (loc_join (k, []) item) (loc_join data_dest item)")
      case (Inl e)
      with True Cons.prems show ?thesis by simp
    next
      case (Inr d1)
      from Cons.prems have "wf_disk d1"
        by (intro wf_shutil_move [OF Inr]) (auto simp: loc_join_def loc_basename_def)
      with Cons.IH [of d1] Cons.prems True Inr show ?thesis by simp
    qed
  qed
qed

lemma os_listdir_valid:
  assumes "os_listdir d l = Inr items" and "wf_disk d"
  shows "\<forall>item \<in> set items. valid_name item"
proof -
  from assms(1) obtain es where s: "stat d l = Some (Dir es)" and i: "items = map fst es"
    by (auto simp: os_listdir_def split: option.splits node.splits)
  from wf_stat [OF assms(2) s] i show ?thesis by auto
qed

lemma wf_restructure:
  assumes "wf_disk (disk st)"
  shows "wf_disk (disk (snd (restructure st)))"
proof (cases "temp_dir st")
  case None
  with assms show ?thesis by (simp add: restructure_def)
next
  case (Some tmp)
  have v: "valid_name ''apg''" "valid_name ''data''" by (simp_all add: valid_name_def)
  from Some show ?thesis
  proof (cases st tmp rule: restructure_cases)
    case (exists e)
    with assms show ?thesis by simp
  next
    case (nodata d1 e)
    from wf_os_makedirs [OF nodata(1) assms] v nodata(3) show ?thesis by simp
  next
    case (nolist d1 d2 e)
    from wf_os_makedirs [OF nolist(1) assms] v have "wf_disk d1" by simp
    from wf_os_makedirs [OF nolist(2) this] v nolist(4) show ?thesis by simp
  next
    case (moved d1 d2 items)
    from wf_os_makedirs [OF moved(1) assms] v have "wf_disk d1" by simp
    from wf_os_makedirs [OF moved(2) this] v have d2: "wf_disk d2" by simp
    from wf_move_items [OF d2 _ os_listdir_valid [OF moved(3) d2], of "(tmp, [''apg'', ''data''])" tmp]
      v moved(4)
    show ?thesis by simp
  qed
qed

lemma create_apg_wf:
  assumes "create_apg env output_file st = (Inr v, st')" and "temp_dir st = Some tmp"
    and "wf_disk (disk st)"
  shows "wf_disk (disk st')"
proof -
  let ?st0 = "log ''Creating APG structure...'' ''process'' st"
  from assms(1,2) obtain st1 st2 st3 v1 v2 v3 where
    r: "restructure ?st0 = (Inr v1, st1)" and
    m: "dump_to env (tmp, [''apg'', ''metadata.json'']) (generate_metadata env) st1 = (Inr v2, st2)" and
    c: "dump_to env (tmp, [''apg'', ''checksums.json''])
       (calculate_checksums env (tmp, [''apg'', ''data''])) st2 = (Inr v3, st3)" and
    w: "write_archive env output_file (tmp, [''apg''])
       (update_progress ''Creating APG archive'' st3) = (Inr v, st')"
    by (rule create_apg_Inr)
  have v: "valid_name ''apg''" "valid_name ''metadata.json''" "valid_name ''checksums.json''"
    by (simp_all add: valid_name_def)
  from wf_restructure [of ?st0] assms(3) r have w1: "wf_disk (disk st1)" by simp
  from m obtain d1 val where a: "write_file (disk st1) (tmp, [''apg'', ''metadata.json'']) [] = Inr d1"
    and b: "write_file d1 (tmp, [''apg'', ''metadata.json'']) (json_dump env val) = Inr (disk st2)"
    by (rule dump_to_Inr) (simp add: generate_metadata_state)
  from wf_write_file [OF b wf_write_file [OF a w1]] v have w2: "wf_disk (disk st2)" by simp
  from c obtain d2 val2 where a2: "write_file (disk st2) (tmp, [''apg'', ''checksums.json'']) [] = Inr d2"
    and b2: "write_file d2 (tmp, [''apg'', ''checksums.json'']) (json_dump env val2) = Inr (disk st3)"
    by (rule dump_to_Inr) (simp add: calculate_checksums_state)
  from wf_write_file [OF b2 wf_write_file [OF a2 w2]] v have w3: "wf_disk (disk st3)" by simp
  from restructure_keeps(1) [of ?st0] r assms(2) have "temp_dir st1 = Some tmp" by simp
  from restructure_success [OF _ r, of tmp] assms(2) have "dir_at_root (disk st1) tmp" by simp
  from write_file_keeps_dir [OF b2 write_file_keeps_dir [OF a2
    write_file_keeps_dir [OF b write_file_keeps_dir [OF a this]]]]
  have "dir_at_root (disk (update_progress ''Creating APG archive'' st3)) tmp" by simp
  from write_archive_Inr [OF w this] obtain root
    where "disk st' = (disk st3)(output_file \<mapsto> File (tar_xz env (tar_add [] root)))" by auto
  with w3 show ?thesis by (simp add: wf_disk_upd)
qed

lemma tar_add_members:
  "wf_node t \<Longrightarrow> (name, m) \<in> set (tar_add arcname t) \<Longrightarrow>
   \<exists>p n. node_at t p = Some n \<and> name = foldl path_join arcname p \<and> m = member_of n"
proof (induction arcname t arbitrary: name m rule: tar_add.induct)
  case (1 arcname b)
  then have "node_at (File b) [] = Some (File b) \<and> name = foldl path_join arcname [] \<and>
      m = member_of (File b)" by simp
  then show ?case by blast
next
  case (2 arcname es)
  show ?case
  proof (cases "(name, m) = (arcname, MemberDir)")
    case True
    then have "node_at (Dir es) [] = Some (Dir es) \<and> name = foldl path_join arcname [] \<and>
      m = member_of (Dir es)" by simp
    then show ?thesis by blast
  next
    case False
    with "2.prems"(2) obtain e where e: "e \<in> set es"
      and mem: "(name, m) \<in> set (tar_add (path_join arcname (fst e)) (snd e))"
      by auto
    from "2.prems"(1) e have we: "wf_node (snd e)" and dist: "distinct (map fst es)" by auto
    from e have e': "e \<in> set (sort_key fst es)" by simp
    from "2.IH" [OF e' we mem] obtain p n where p: "node_at (snd e) p = Some n"
      "name = foldl path_join (path_join arcname (fst e)) p" "m = member_of n" by blast
    from dist e have "map_of es (fst e) = Some (snd e)" by (cases e) simp
    with p have "node_at (Dir es) (fst e # p) = Some n \<and>
      name = foldl path_join arcname (fst e # p) \<and> m = member_of n" by simp
    then show ?thesis by blast
  qed
qed

lemma tar_add_members_root:
  assumes "wf_node t" and "(name, m) \<in> set (tar_add [] t)"
  shows "(name = [] \<and> m = member_of t) \<or>
    (\<exists>p n. p \<noteq> [] \<and> (\<forall>x \<in> set p. valid_name x) \<and> node_at t p = Some n \<and>
       name = rel_path p \<and> m = member_of n)"
proof -
  from tar_add_members [OF assms] obtain p n where p: "node_at t p = Some n"
    "name = foldl path_join [] p" "m = member_of n" by blast
  show ?thesis
  proof (cases "p = []")
    case True
    with p show ?thesis by simp
  next
    case False
    from wf_node_at [OF assms(1) p(1)] have v: "\<forall>x \<in> set p. valid_name x" by simp
    from foldl_path_join_rel_path [OF False v] p False v show ?thesis by auto
  qed
qed

lemma wf_sample: "wf_disk (disk extracted_state)"
  by (auto simp: wf_disk_def extracted_state_def sample_disk_def sample_tree_def valid_name_def
      split: if_splits)

subsection \<open>The checksum map\<close>





subsection \<open>The output archive\<close>

text \<open>
  C7. When \<open>create_apg\<close> succeeds, the file at the output path is the tar.xz encoding of
  the members \<open>tar.add\<close> lists for the archive root with the empty arcname: the root
  itself under the empty name, and every file and directory below the root under its
  slash-joined path relative to the root; among them \<open>data\<close> as a directory and
  \<open>metadata.json\<close> and \<open>checksums.json\<close> as files. On a well-formed staging tree the
  archive has no other member.
\<close>

theorem archive_rooted_at_apg_root:
  assumes "create_apg env output_file st = (Inr v, st')" and "temp_dir st = Some tmp"
  shows "\<exists>root. stat (disk st') (tmp, [''apg'']) = Some root \<and>
      disk st' output_file = Some (File (tar_xz env (tar_add [] root))) \<and>
      ([], MemberDir) \<in> set (tar_add [] root) \<and>
      (\<forall>p n. p \<noteq> [] \<and> (\<forall>x \<in> set p. valid_name x) \<and> node_at root p = Some n \<longrightarrow>
         (rel_path p, member_of n) \<in> set (tar_add [] root)) \<and>
      (''data'', MemberDir) \<in> set (tar_add [] root) \<and>
      (\<exists>b. (''metadata.json'', MemberFile b) \<in> set (tar_add [] root)) \<and>
      (\<exists>b. (''checksums.json'', MemberFile b) \<in> set (tar_add [] root)) \<and>
      (wf_disk (disk st) \<longrightarrow>
         (\<forall>name m. (name, m) \<in> set (tar_add [] root) \<longrightarrow>
            (name = [] \<and> m = MemberDir) \<or>
            (\<exists>p n. p \<noteq> [] \<and> node_at root p = Some n \<and> name = rel_path p \<and>
               m = member_of n)))"
proof -
  from create_apg_success(4) [OF assms] obtain root
    where root: "stat (disk st') (tmp, [''apg'']) = Some root"
      and out: "disk st' output_file = Some (File (tar_xz env (tar_add [] root)))" by blast
  have below: "stat (disk st') (tmp, ''apg'' # q) = node_at root q" for q
    using stat_append [OF root, of q] by simp
  have rel: "(rel_path p, member_of n) \<in> set (tar_add [] root)"
    if "p \<noteq> []" "\<forall>x \<in> set p. valid_name x" "node_at root p = Some n" for p n
    using tar_add_contains [OF that(3), of "[]"] foldl_path_join_rel_path [OF that(1,2)]
    by simp
  have v: "valid_name ''data''" "valid_name ''metadata.json''" "valid_name ''checksums.json''"
    by (simp_all add: valid_name_def)
  from create_apg_success(5) [OF assms] below [of "[''data'']"]
  obtain ds where "node_at root [''data''] = Some (Dir ds)" by auto
  from rel [OF _ _ this] v have 1: "(''data'', MemberDir) \<in> set (tar_add [] root)" by simp
  from create_apg_success(6) [OF assms] below [of "[''metadata.json'']"]
  obtain b where "node_at root [''metadata.json''] = Some (File b)" by auto
  from rel [OF _ _ this] v have 2: "\<exists>b. (''metadata.json'', MemberFile b) \<in> set (tar_add [] root)"
    by auto
  from create_apg_success(7) [OF assms] below [of "[''checksums.json'']"]
  obtain c where "node_at root [''checksums.json''] = Some (File c)" by auto
  from rel [OF _ _ this] v have 3: "\<exists>b. (''checksums.json'', MemberFile b) \<in> set (tar_add [] root)"
    by auto
  from create_apg_success(5) [OF assms] below [of "[''data'']"] have dir: "member_of root = MemberDir"
    by (cases root) auto
  with tar_add_head [of "[]" root] have 0: "([], MemberDir) \<in> set (tar_add [] root)"
    by simp
  have 4: "(name = [] \<and> m = MemberDir) \<or>
            (\<exists>p n. p \<noteq> [] \<and> node_at root p = Some n \<and> name = rel_path p \<and> m = member_of n)"
    if "wf_disk (disk st)" "(name, m) \<in> set (tar_add [] root)" for name m
  proof -
    from wf_stat [OF create_apg_wf [OF assms that(1)] root] have "wf_node root" .
    from tar_add_members_root [OF this that(2)] dir show ?thesis by auto
  qed
  show ?thesis
  proof (intro exI [of _ root] conjI)
    show "stat (disk st') (tmp, [''apg'']) = Some root" by (rule root)
    show "disk st' output_file = Some (File (tar_xz env (tar_add [] root)))" by (rule out)
    show "([], MemberDir) \<in> set (tar_add [] root)" by (rule 0)
    show "\<forall>p n. p \<noteq> [] \<and> (\<forall>x \<in> set p. valid_name x) \<and> node_at root p = Some n \<longrightarrow>
         (rel_path p, member_of n) \<in> set (tar_add [] root)"
      using rel by simp
    show "(''data'', MemberDir) \<in> set (tar_add [] root)" by (rule 1)
    show "\<exists>b. (''metadata.json'', MemberFile b) \<in> set (tar_add [] root)" by (rule 2)
    show "\<exists>b. (''checksums.json'', MemberFile b) \<in> set (tar_add [] root)" by (rule 3)
    show "wf_disk (disk st) \<longrightarrow>
         (\<forall>name m. (name, m) \<in> set (tar_add [] root) \<longrightarrow>
            (name = [] \<and> m = MemberDir) \<or>
            (\<exists>p n. p \<noteq> [] \<and> node_at root p = Some n \<and> name = rel_path p \<and>
               m = member_of n))"
      using 4 by (intro impI allI)
  qed
qed

theorem archive_rooted_at_apg_root_witness:
  "create_apg sample_env ''out.apg'' extracted_state =
     (Inr PyNone, snd (create_apg sample_env ''out.apg'' extracted_state)) \<and>
   temp_dir extracted_state = Some ''/tmp/tmpa'' \<and>
   wf_disk (disk extracted_state) \<and>
   (\<exists>root. stat (disk (snd (create_apg sample_env ''out.apg'' extracted_state)))
             (''/tmp/tmpa'', [''apg'']) = Some root \<and>
      disk (snd (create_apg sample_env ''out.apg'' extracted_state)) ''out.apg'' =
        Some (File (tar_xz sample_env (tar_add [] root))) \<and>
      (''data'', MemberDir) \<in> set (tar_add [] root) \<and>
      (''data/usr/bin/x'', MemberFile ''hello'') \<in> set (tar_add [] root)) \<and>
   map_option (\<lambda>root. map fst (tar_add [] root))
     (stat (disk (snd (create_apg sample_env ''out.apg'' extracted_state)))
        (''/tmp/tmpa'', [''apg''])) =
     Some [[], ''checksums.json'', ''data'', ''data/usr'', ''data/usr/bin'', ''data/usr/bin/x'',
           ''metadata.json'']"
proof -
  have t: "temp_dir extracted_state = Some ''/tmp/tmpa''"
    by (simp add: extracted_state_def)
  have "fst (create_apg sample_env ''out.apg'' extracted_state) = Inr PyNone"
    by code_simp
  then have c: "create_apg sample_env ''out.apg'' extracted_state =
      (Inr PyNone, snd (create_apg sample_env ''out.apg'' extracted_state))"
    by (metis prod.collapse)
  have x: "stat (disk (snd (create_apg sample_env ''out.apg'' extracted_state)))
      (''/tmp/tmpa'', [''apg''] @ [''data'', ''usr'', ''bin'', ''x'']) = Some (File ''hello'')"
    by code_simp
  have names: "map_option (\<lambda>root. map fst (tar_add [] root))
     (stat (disk (snd (create_apg sample_env ''out.apg'' extracted_state)))
        (''/tmp/tmpa'', [''apg''])) =
     Some [[], ''checksums.json'', ''data'', ''data/usr'', ''data/usr/bin'', ''data/usr/bin/x'',
           ''metadata.json'']"
    by code_simp
  from archive_rooted_at_apg_root [OF c t] obtain root
    where root: "stat (disk (snd (create_apg sample_env ''out.apg'' extracted_state)))
             (''/tmp/tmpa'', [''apg'']) = Some root"
      and out: "disk (snd (create_apg sample_env ''out.apg'' extracted_state)) ''out.apg'' =
        Some (File (tar_xz sample_env (tar_add [] root)))"
      and rel: "\<forall>p n. p \<noteq> [] \<and> (\<forall>x \<in> set p. valid_name x) \<and> node_at root p = Some n \<longrightarrow>
         (rel_path p, member_of n) \<in> set (tar_add [] root)"
      and data: "(''data'', MemberDir) \<in> set (tar_add [] root)"
    by blast
  from stat_append [OF root, of "[''data'', ''usr'', ''bin'', ''x'']"] x
  have "node_at root [''data'', ''usr'', ''bin'', ''x''] = Some (File ''hello'')" by simp
  moreover have "\<forall>x \<in> set [''data'', ''usr'', ''bin'', ''x'']. valid_name x"
    by (simp add: valid_name_def)
  ultimately have "(rel_path [''data'', ''usr'', ''bin'', ''x''], member_of (File ''hello''))
      \<in> set (tar_add [] root)"
    using rel [rule_format, of "[''data'', ''usr'', ''bin'', ''x'']" "File ''hello''"] by blast
  then have "(''data/usr/bin/x'', MemberFile ''hello'') \<in> set (tar_add [] root)" by simp
  with root out data
  have "\<exists>root. stat (disk (snd (create_apg sample_env ''out.apg'' extracted_state)))
             (''/tmp/tmpa'', [''apg'']) = Some root \<and>
      disk (snd (create_apg sample_env ''out.apg'' extracted_state)) ''out.apg'' =
        Some (File (tar_xz sample_env (tar_add [] root))) \<and>
      (''data'', MemberDir) \<in> set (tar_add [] root) \<and>
      (''data/usr/bin/x'', MemberFile ''hello'') \<in> set (tar_add [] root)"
    by (intro exI [of _ root] conjI)
  with c t wf_sample names show ?thesis by (intro conjI)
qed

subsection \<open>The entries excluded by name\<close>

text \<open>
  C10, as stated, on a package whose payload has a top-level entry \<open>apg\<close>: the entry is
  not silently left out. \<open>os.makedirs\<close> raises FileExistsError before any entry is moved,
  \<open>create_apg\<close> fails, no archive is written, and \<open>main\<close> prints the error and exits
  with 1.
\<close>

theorem payload_named_apg_counterexample:
  "stat (disk apg_payload_state) (''/tmp/tmpa'', [''apg'']) = Some (Dir [(''readme'', File ''hi'')]) \<and>
   fst (create_apg sample_env ''out.apg'' apg_payload_state) =
     Inl (os_error EEXIST ''/tmp/tmpa/apg'') \<and>
   disk (snd (create_apg sample_env ''out.apg'' apg_payload_state)) ''out.apg'' = None \<and>
   fst (main apg_payload_env sample_args sample_disk) = 1 \<and>
   last (tty (snd (main apg_payload_env sample_args sample_disk))) =
     ErrorLine (''[Errno 17] File exists: '' @ [CHR 0x27] @ ''/tmp/tmpa/apg'' @ [CHR 0x27]) \<and>
   disk (snd (main apg_payload_env sample_args sample_disk)) ''out.apg'' = None"
  by code_simp

text \<open>
  C10, amended. When the staging tree has a top-level entry \<open>apg\<close>, the restructuring
  step raises FileExistsError for it and changes nothing, so no archive is made. In
  every run of \<open>create_apg\<close> that succeeds there was no such entry, the top-level entry
  \<open>DEBIAN\<close> has stayed where it was, \<open>data\<close> has no entry named \<open>DEBIAN\<close> or \<open>apg\<close>, and
  the output file is the archive of that archive root; on a well-formed staging tree
  that archive has no member at or below \<open>data/DEBIAN\<close> or \<open>data/apg\<close>.
\<close>

theorem restructure_name_exclusion:
  assumes "temp_dir st = Some tmp"
  shows "(stat (disk st) (tmp, [''apg'']) \<noteq> None \<longrightarrow>
            restructure st = (Inl (os_error EEXIST (path_join tmp ''apg'')), st)) \<and>
         (\<forall>v st'. create_apg env output_file st = (Inr v, st') \<longrightarrow>
            stat (disk st) (tmp, [''apg'']) = None \<and>
            stat (disk st') (tmp, [''apg'', ''data'', ''DEBIAN'']) = None \<and>
            stat (disk st') (tmp, [''apg'', ''data'', ''apg'']) = None \<and>
            stat (disk st') (tmp, [''DEBIAN'']) = stat (disk st) (tmp, [''DEBIAN'']) \<and>
            (\<exists>root. stat (disk st') (tmp, [''apg'']) = Some root \<and>
               disk st' output_file = Some (File (tar_xz env (tar_add [] root))) \<and>
               (wf_disk (disk st) \<longrightarrow>
                  (\<forall>r m. (\<forall>x \<in> set r. valid_name x) \<longrightarrow>
                     (rel_path (''data'' # ''DEBIAN'' # r), m) \<notin> set (tar_add [] root) \<and>
                     (rel_path (''data'' # ''apg'' # r), m) \<notin> set (tar_add [] root)))))"
proof (intro conjI impI allI)
  assume "stat (disk st) (tmp, [''apg'']) \<noteq> None"
  with assms show "restructure st = (Inl (os_error EEXIST (path_join tmp ''apg'')), st)"
    by (rule restructure_apg_taken)
next
  fix v st' assume c: "create_apg env output_file st = (Inr v, st')"
  show "stat (disk st) (tmp, [''apg'']) = None"
  proof (rule ccontr)
    assume "stat (disk st) (tmp, [''apg'']) \<noteq> None"
    then have "stat (disk (log ''Creating APG structure...'' ''process'' st)) (tmp, [''apg'']) \<noteq> None"
      by simp
    from restructure_apg_taken [OF _ this] assms c show False
      by (simp add: create_apg_def)
  qed
  from create_apg_success(9) [OF c assms, of "''DEBIAN''" "[]"]
  show "stat (disk st') (tmp, [''apg'', ''data'', ''DEBIAN'']) = None" by simp
  from create_apg_success(9) [OF c assms, of "''apg''" "[]"]
  show "stat (disk st') (tmp, [''apg'', ''data'', ''apg'']) = None" by simp
  from create_apg_success(8) [OF c assms, of "[]"]
  show "stat (disk st') (tmp, [''DEBIAN'']) = stat (disk st) (tmp, [''DEBIAN''])" .
  from create_apg_success(4) [OF c assms] obtain root
    where root: "stat (disk st') (tmp, [''apg'']) = Some root"
      and out: "disk st' output_file = Some (File (tar_xz env (tar_add [] root)))" by blast
  have absent: "(rel_path (''data'' # x # r), m) \<notin> set (tar_add [] root)"
    if wf: "wf_disk (disk st)" and x: "x = ''DEBIAN'' \<or> x = ''apg''"
      and r: "\<forall>y \<in> set r. valid_name y" for x r m
  proof
    assume mem: "(rel_path (''data'' # x # r), m) \<in> set (tar_add [] root)"
    from wf_stat [OF create_apg_wf [OF c assms wf] root] have wr: "wf_node root" .
    from x r have vq: "\<forall>y \<in> set (''data'' # x # r). valid_name y"
      by (auto simp: valid_name_def)
    from rel_path_last [OF _ vq] have "rel_path (''data'' # x # r) \<noteq> []" by simp
    with tar_add_members_root [OF wr mem] obtain p n
      where p: "p \<noteq> []" "\<forall>y \<in> set p. valid_name y" "node_at root p = Some n"
        "rel_path (''data'' # x # r) = rel_path p" by auto
    from rel_path_inj [OF vq p(2) _ p(1) p(4)] have "p = ''data'' # x # r" by simp
    with p(3) stat_append [OF root, of "''data'' # x # r"]
    have "stat (disk st') (tmp, ''apg'' # ''data'' # x # r) = Some n" by simp
    with create_apg_success(9) [OF c assms x, of r] show False by simp
  qed
  show "\<exists>root. stat (disk st') (tmp, [''apg'']) = Some root \<and>
               disk st' output_file = Some (File (tar_xz env (tar_add [] root))) \<and>
               (wf_disk (disk st) \<longrightarrow>
                  (\<forall>r m. (\<forall>x \<in> set r. valid_name x) \<longrightarrow>
                     (rel_path (''data'' # ''DEBIAN'' # r), m) \<notin> set (tar_add [] root) \<and>
                     (rel_path (''data'' # ''apg'' # r), m) \<notin> set (tar_add [] root)))"
  proof (intro exI [of _ root] conjI impI allI)
    show "stat (disk st') (tmp, [''apg'']) = Some root" by (rule root)
    show "disk st' output_file = Some (File (tar_xz env (tar_add [] root)))" by (rule out)
  next
    fix r m assume "wf_disk (disk st)" and "\<forall>x \<in> set r. valid_name x"
    then show "(rel_path (''data'' # ''DEBIAN'' # r), m) \<notin> set (tar_add [] root)"
      by (intro absent) simp_all
  next
    fix r m assume "wf_disk (disk st)" and "\<forall>x \<in> set r. valid_name x"
    then show "(rel_path (''data'' # ''apg'' # r), m) \<notin> set (tar_add [] root)"
      by (intro absent) simp_all
  qed
qed

theorem restructure_name_exclusion_witness:
  "temp_dir apg_payload_state = Some ''/tmp/tmpa'' \<and>
   stat (disk apg_payload_state) (''/tmp/tmpa'', [''apg'']) \<noteq> None \<and>
   restructure apg_payload_state = (Inl (os_error EEXIST ''/tmp/tmpa/apg''), apg_payload_state) \<and>
   temp_dir extracted_state = Some ''/tmp/tmpa'' \<and>
   wf_disk (disk extracted_state) \<and>
   fst (create_apg sample_env ''out.apg'' extracted_state) = Inr PyNone \<and>
   stat (disk (snd (create_apg sample_env ''out.apg'' extracted_state)))
     (''/tmp/tmpa'', [''apg'', ''data'', ''DEBIAN'']) = None \<and>
   stat (disk (snd (create_apg sample_env ''out.apg'' extracted_state))) (''/tmp/tmpa'', [''DEBIAN'']) =
     Some (Dir [(''control'', File ''Package: x'')]) \<and>
   (\<exists>root. stat (disk (snd (create_apg sample_env ''out.apg'' extracted_state)))
             (''/tmp/tmpa'', [''apg'']) = Some root \<and>
      disk (snd (create_apg sample_env ''out.apg'' extracted_state)) ''out.apg'' =
        Some (File (tar_xz sample_env (tar_add [] root))) \<and>
      (''data/DEBIAN/control'', MemberFile ''Package: x'') \<notin> set (tar_add [] root) \<and>
      (''data/DEBIAN'', MemberDir) \<notin> set (tar_add [] root))"
proof -
  have t: "temp_dir apg_payload_state = Some ''/tmp/tmpa''"
    by (simp add: apg_payload_state_def extracted_state_def)
  have a: "stat (disk apg_payload_state) (''/tmp/tmpa'', [''apg'']) \<noteq> None"
    by (simp add: apg_payload_state_def extracted_state_def stat_def sample_tree_def)
  from restructure_name_exclusion [OF t, THEN conjunct1, rule_format, OF a]
  have 1: "restructure apg_payload_state =
      (Inl (os_error EEXIST ''/tmp/tmpa/apg''), apg_payload_state)"
    by (simp add: path_join_def)
  have t': "temp_dir extracted_state = Some ''/tmp/tmpa''"
    by (simp add: extracted_state_def)
  have c: "fst (create_apg sample_env ''out.apg'' extracted_state) = Inr PyNone"
    by code_simp
  then have c': "create_apg sample_env ''out.apg'' extracted_state =
      (Inr PyNone, snd (create_apg sample_env ''out.apg'' extracted_state))"
    by (metis prod.collapse)
  have s: "stat (disk extracted_state) (''/tmp/tmpa'', [''DEBIAN'']) =
      Some (Dir [(''control'', File ''Package: x'')])"
    by (simp add: extracted_state_def stat_def sample_tree_def)
  note w = restructure_name_exclusion [OF t', THEN conjunct2, rule_format, OF c']
  from w [THEN conjunct2, THEN conjunct1]
  have 2: "stat (disk (snd (create_apg sample_env ''out.apg'' extracted_state)))
     (''/tmp/tmpa'', [''apg'', ''data'', ''DEBIAN'']) = None" .
  from w [THEN conjunct2, THEN conjunct2, THEN conjunct2, THEN conjunct1] s
  have 3: "stat (disk (snd (create_apg sample_env ''out.apg'' extracted_state)))
     (''/tmp/tmpa'', [''DEBIAN'']) = Some (Dir [(''control'', File ''Package: x'')])" by simp
  from w [THEN conjunct2, THEN conjunct2, THEN conjunct2, THEN conjunct2] obtain root
    where root: "stat (disk (snd (create_apg sample_env ''out.apg'' extracted_state)))
             (''/tmp/tmpa'', [''apg'']) = Some root"
      and out: "disk (snd (create_apg sample_env ''out.apg'' extracted_state)) ''out.apg'' =
        Some (File (tar_xz sample_env (tar_add [] root)))"
      and ex: "wf_disk (disk extracted_state) \<longrightarrow>
                  (\<forall>r m. (\<forall>x \<in> set r. valid_name x) \<longrightarrow>
                     (rel_path (''data'' # ''DEBIAN'' # r), m) \<notin> set (tar_add [] root) \<and>
                     (rel_path (''data'' # ''apg'' # r), m) \<notin> set (tar_add [] root))"
    by blast
  have v: "\<forall>x \<in> set [''control'']. valid_name x" by (simp add: valid_name_def)
  from ex [THEN mp, OF wf_sample, THEN spec [of _ "[''control'']"],
      THEN spec [of _ "MemberFile ''Package: x''"], THEN mp, OF v, THEN conjunct1]
  have 4: "(''data/DEBIAN/control'', MemberFile ''Package: x'') \<notin> set (tar_add [] root)"
    by simp
  have v': "\<forall>x \<in> set ([] :: string list). valid_name x" by simp
  from ex [THEN mp, OF wf_sample, THEN spec [of _ "[]"],
      THEN spec [of _ MemberDir], THEN mp, OF v', THEN conjunct1]
  have 5: "(''data/DEBIAN'', MemberDir) \<notin> set (tar_add [] root)"
    by simp
  from root out 4 5
  have 6: "\<exists>root. stat (disk (snd (create_apg sample_env ''out.apg'' extracted_state)))
             (''/tmp/tmpa'', [''apg'']) = Some root \<and>
      disk (snd (create_apg sample_env ''out.apg'' extracted_state)) ''out.apg'' =
        Some (File (tar_xz sample_env (tar_add [] root))) \<and>
      (''data/DEBIAN/control'', MemberFile ''Package: x'') \<notin> set (tar_add [] root) \<and>
      (''data/DEBIAN'', MemberDir) \<notin> set (tar_add [] root)"
    by (intro exI [of _ root] conjI)
  from t a 1 t' wf_sample c 2 3 6 show ?thesis by (intro conjI)
qed

end
